theory Spec2Isabelle
  imports Complex_Main
begin

section \<open>Data model\<close>

text \<open>
  Coordinates are floating-point triples in the source (numpy arrays of shape (3,) and
  Rosetta's xyzVector); they are modelled as triples of reals. A 3x3 matrix is the triple
  of its rows, as \<open>np_array_to_xyzM\<close> reads it.
\<close>

type_synonym vec3 = "real \<times> real \<times> real"
type_synonym mat3 = "vec3 \<times> vec3 \<times> vec3"

text \<open>The exceptions the two scripts can raise, one constructor for each kind.\<close>

datatype error =
    SuperimposeError    \<comment> \<open>\<open>raise Exception("Sets to be superimposed must have same number of points.")\<close>\<close>
  | LinAlgError         \<comment> \<open>raised by \<open>np.linalg.svd\<close> on an argument that is not a matrix\<close>
  | AssertionError      \<comment> \<open>a failed \<open>assert\<close>\<close>
  | ZeroDivisionError   \<comment> \<open>\<open>0 / 0\<close> on Python numbers\<close>
  | IndexError          \<comment> \<open>a list read out of range\<close>
  | KeyError            \<comment> \<open>a missing dictionary key\<close>
  | FileNotFoundError   \<comment> \<open>a file that cannot be opened\<close>
  | ResidueIndexError   \<comment> \<open>\<open>pose.residue(i)\<close> with \<open>i\<close> outside \<open>1..pose.size()\<close>\<close>

text \<open>
  A residue carries its three backbone atoms and the coordinates of its other atoms; a
  pose is the sequence of its residues, numbered from 1.
\<close>

record residue =
  atom_N :: vec3
  atom_CA :: vec3
  atom_C :: vec3
  other_atoms :: "vec3 list"

type_synonym pose = "residue list"

definition residue_at :: "pose \<Rightarrow> int \<Rightarrow> error + residue" where
  \<comment> \<open>\<open>pose.residue(i)\<close>\<close>
  "residue_at pose i =
     (if 1 \<le> i \<and> i \<le> int (length pose) then Inr (pose ! nat (i - 1))
      else Inl ResidueIndexError)"

subsection \<open>Vectors and matrices\<close>

fun vadd :: "vec3 \<Rightarrow> vec3 \<Rightarrow> vec3" where
  "vadd (a, b, c) (d, e, f) = (a + d, b + e, c + f)"

fun vsub :: "vec3 \<Rightarrow> vec3 \<Rightarrow> vec3" where
  "vsub (a, b, c) (d, e, f) = (a - d, b - e, c - f)"

fun vscale :: "real \<Rightarrow> vec3 \<Rightarrow> vec3" where
  "vscale k (a, b, c) = (k * a, k * b, k * c)"

fun vdot :: "vec3 \<Rightarrow> vec3 \<Rightarrow> real" where
  \<comment> \<open>\<open>np.dot\<close> of two vectors\<close>
  "vdot (a, b, c) (d, e, f) = a * d + b * e + c * f"

definition vzero :: vec3 where
  "vzero = (0, 0, 0)"

fun mat_vec :: "mat3 \<Rightarrow> vec3 \<Rightarrow> vec3" where
  \<comment> \<open>\<open>np.dot\<close> of a matrix and a vector\<close>
  "mat_vec (r1, r2, r3) v = (vdot r1 v, vdot r2 v, vdot r3 v)"

fun transpose3 :: "mat3 \<Rightarrow> mat3" where
  \<comment> \<open>\<open>np.transpose\<close>\<close>
  "transpose3 ((a, b, c), (d, e, f), (g, h, i)) = ((a, d, g), (b, e, h), (c, f, i))"

fun mat_mul :: "mat3 \<Rightarrow> mat3 \<Rightarrow> mat3" where
  \<comment> \<open>\<open>np.dot\<close> of two matrices\<close>
  "mat_mul (r1, r2, r3) B =
     (mat_vec (transpose3 B) r1, mat_vec (transpose3 B) r2, mat_vec (transpose3 B) r3)"

fun madd :: "mat3 \<Rightarrow> mat3 \<Rightarrow> mat3" where
  "madd (r1, r2, r3) (s1, s2, s3) = (vadd r1 s1, vadd r2 s2, vadd r3 s3)"

fun outer :: "vec3 \<Rightarrow> vec3 \<Rightarrow> mat3" where
  "outer (a, b, c) v = (vscale a v, vscale b v, vscale c v)"

definition mzero :: mat3 where
  "mzero = (vzero, vzero, vzero)"

definition mat_id :: mat3 where
  "mat_id = ((1, 0, 0), (0, 1, 0), (0, 0, 1))"

fun diag3 :: "vec3 \<Rightarrow> mat3" where
  "diag3 (a, b, c) = ((a, 0, 0), (0, b, 0), (0, 0, c))"

fun det3 :: "mat3 \<Rightarrow> real" where
  \<comment> \<open>\<open>np.linalg.det\<close>\<close>
  "det3 ((a, b, c), (d, e, f), (g, h, i)) =
     a * (e * i - f * h) - b * (d * i - f * g) + c * (d * h - e * g)"

fun negate_last_column :: "mat3 \<Rightarrow> mat3" where
  \<comment> \<open>\<open>V[:, -1] = -V[:, -1]\<close>\<close>
  "negate_last_column ((a, b, c), (d, e, f), (g, h, i)) = ((a, b, - c), (d, e, - f), (g, h, - i))"

definition vsum :: "vec3 list \<Rightarrow> vec3" where
  "vsum ps = foldr vadd ps vzero"

definition mean :: "vec3 list \<Rightarrow> vec3" where
  \<comment> \<open>\<open>np.mean(P, axis=0)\<close> of a non-empty list of points\<close>
  "mean ps = vscale (1 / real (length ps)) (vsum ps)"

definition cross_covariance :: "vec3 list \<Rightarrow> vec3 list \<Rightarrow> mat3" where
  \<comment> \<open>\<open>np.dot(np.transpose(A), B)\<close> for two n x 3 arrays: the sum of the outer products of
      corresponding rows\<close>
  "cross_covariance A B = foldr madd (map2 outer A B) mzero"

definition distance :: "vec3 \<Rightarrow> vec3 \<Rightarrow> real" where
  \<comment> \<open>\<open>xyzVector.distance\<close>\<close>
  "distance p q = sqrt (vdot (vsub p q) (vsub p q))"

section \<open>The RMSD script\<close>

subsection \<open>\<open>load_design\<close>\<close>

text \<open>
  What \<open>load_design\<close> reads of a design directory: the pose in \<open>design.pdb.gz\<close>, the
  pose in \<open>lowest_energy_model.pdb\<close>, and the object in \<open>design_info.json\<close> (its fields
  that hold lists of integers); \<open>None\<close> for a file that does not exist.
\<close>

record design_dir =
  design_pdb_gz :: "pose option"
  lowest_energy_model_pdb :: "pose option"
  design_info_json :: "(string \<times> int list) list option"

definition load_design :: "design_dir \<Rightarrow> error + (pose \<times> pose \<times> int list \<times> int list)" where
  "load_design design_path =
     (case design_pdb_gz design_path of
        None \<Rightarrow> Inl FileNotFoundError
      | Some pose_design \<Rightarrow>
          (let pose_lowest_energy =
                 (case lowest_energy_model_pdb design_path of
                    Some p \<Rightarrow> p
                  | None \<Rightarrow> pose_design)
           in case design_info_json design_path of
                None \<Rightarrow> Inl FileNotFoundError
              | Some info \<Rightarrow>
                  (case map_of info ''bb_remodeled_residues'' of
                     None \<Rightarrow> Inl KeyError
                   | Some bb_remodeled_residues \<Rightarrow>
                       Inr (pose_design, pose_lowest_energy, bb_remodeled_residues,
                            [i \<leftarrow> [1 .. int (length pose_design)].
                               \<not> (i \<in> set bb_remodeled_residues)]))))"

subsection \<open>\<open>get_backbone_points\<close> and \<open>calc_backbone_RMSD\<close>\<close>

fun get_backbone_points :: "pose \<Rightarrow> int list \<Rightarrow> error + vec3 list" where
  "get_backbone_points pose [] = Inr []"
| "get_backbone_points pose (res # residues) =
     (case residue_at pose res of
        Inl e \<Rightarrow> Inl e
      | Inr r \<Rightarrow>
          (case get_backbone_points pose residues of
             Inl e \<Rightarrow> Inl e
           | Inr points \<Rightarrow> Inr (atom_N r # atom_CA r # atom_C r # points)))"

definition RMSD :: "vec3 list \<Rightarrow> vec3 list \<Rightarrow> error + real" where
  \<comment> \<open>the inner function of \<open>calc_backbone_RMSD\<close>; \<open>points1[i] - poinsts2[i]\<close> is read for
      every index of \<open>points1\<close>, and the sum of no terms is the integer 0\<close>
  "RMSD points1 poinsts2 =
     (if length poinsts2 < length points1 then Inl IndexError
      else let diff = map2 vsub points1 poinsts2
           in if length diff = 0 then Inl ZeroDivisionError
              else Inr (sqrt (sum_list (map (\<lambda>d. vdot d d) diff) / real (length diff))))"

definition calc_backbone_RMSD :: "pose \<Rightarrow> int list \<Rightarrow> pose \<Rightarrow> int list \<Rightarrow> error + real" where
  "calc_backbone_RMSD pose1 residues1 pose2 residues2 =
     (if length residues1 \<noteq> length residues2 then Inl AssertionError
      else case get_backbone_points pose1 residues1 of
             Inl e \<Rightarrow> Inl e
           | Inr points1 \<Rightarrow>
               (case get_backbone_points pose2 residues2 of
                  Inl e \<Rightarrow> Inl e
                | Inr points2 \<Rightarrow> RMSD points1 points2))"

subsection \<open>\<open>get_superimpose_transformation\<close>\<close>

text \<open>
  \<open>np.linalg.svd\<close> is numpy's; it is a parameter \<open>svd\<close> of the model, which returns the
  three factors \<open>V, S, W\<close> of its argument. What numpy documents of it is \<open>is_svd\<close>: both
  outer factors are orthogonal, the singular values are sorted in descending order and are
  not negative, and the product of the factors is the argument.
\<close>

type_synonym svd_fun = "mat3 \<Rightarrow> mat3 \<times> vec3 \<times> mat3"

definition orthogonal :: "mat3 \<Rightarrow> bool" where
  "orthogonal A \<longleftrightarrow> mat_mul A (transpose3 A) = mat_id \<and> mat_mul (transpose3 A) A = mat_id"

definition proper_rotation :: "mat3 \<Rightarrow> bool" where
  "proper_rotation A \<longleftrightarrow> orthogonal A \<and> det3 A = 1"

fun is_svd :: "mat3 \<Rightarrow> mat3 \<times> vec3 \<times> mat3 \<Rightarrow> bool" where
  "is_svd H (V, (s1, s2, s3), W) \<longleftrightarrow>
     orthogonal V \<and> orthogonal W \<and> s1 \<ge> s2 \<and> s2 \<ge> s3 \<and> s3 \<ge> 0
     \<and> mat_mul (mat_mul V (diag3 (s1, s2, s3))) W = H"

text \<open>
  With two empty lists the length test passes, \<open>np.mean([], axis=0)\<close> is \<open>nan\<close> (with a
  warning, not an exception), both differences are empty one-dimensional arrays, their
  \<open>np.dot\<close> is the scalar \<open>0.0\<close>, and \<open>np.linalg.svd\<close> rejects a scalar with
  \<open>LinAlgError\<close>. With a non-empty list of points the argument of \<open>svd\<close> is a 3x3 matrix.
\<close>

definition get_superimpose_transformation ::
  "svd_fun \<Rightarrow> vec3 list \<Rightarrow> vec3 list \<Rightarrow> error + (mat3 \<times> vec3)" where
  "get_superimpose_transformation svd P1 P2 =
     (if length P1 \<noteq> length P2 then Inl SuperimposeError
      else if P1 = [] then Inl LinAlgError
      else let com1 = mean P1;
               com2 = mean P2;
               R = cross_covariance (map (\<lambda>p. vsub p com1) P1) (map (\<lambda>p. vsub p com2) P2);
               (V, S, W) = svd R;
               V' = (if det3 V * det3 W < 0 then negate_last_column V else V);
               M = transpose3 (mat_mul V' W)
           in Inr (M, vsub com2 (mat_vec M com1)))"

text \<open>
  The points of a list taken relative to their centroid, and the matrix that
  \<open>get_superimpose_transformation\<close> hands to \<open>svd\<close>.
\<close>

definition centred :: "vec3 list \<Rightarrow> vec3 list" where
  "centred P = map (\<lambda>p. vsub p (mean P)) P"

definition superimpose_covariance :: "vec3 list \<Rightarrow> vec3 list \<Rightarrow> mat3" where
  "superimpose_covariance P1 P2 = cross_covariance (centred P1) (centred P2)"

text \<open>
  A list of points is collinear when its points lie on one line through their centroid:
  the cross product of any two of the centred points is zero. One point, or none, is
  collinear.
\<close>

fun cross :: "vec3 \<Rightarrow> vec3 \<Rightarrow> vec3" where
  "cross (a, b, c) (d, e, f) = (b * f - c * e, c * d - a * f, a * e - b * d)"

definition collinear :: "vec3 list \<Rightarrow> bool" where
  "collinear P \<longleftrightarrow> list_all (\<lambda>p. list_all (\<lambda>q. cross p q = vzero) (centred P)) (centred P)"

fun trace3 :: "mat3 \<Rightarrow> real" where
  "trace3 ((a, b, c), (d, e, f), (g, h, i)) = a + e + i"

subsection \<open>\<open>superimpose_poses_by_residues\<close>\<close>

definition Rx_plus_v :: "mat3 \<Rightarrow> vec3 \<Rightarrow> vec3 \<Rightarrow> vec3" where
  "Rx_plus_v R v x = vadd (mat_vec R x) v"

text \<open>
  \<open>Pose.apply_transform_Rx_plus_v\<close> is Rosetta's: it replaces the coordinate \<open>x\<close> of every
  atom of the pose by \<open>R x + v\<close>.
\<close>

definition apply_transform_Rx_plus_v :: "mat3 \<Rightarrow> vec3 \<Rightarrow> pose \<Rightarrow> pose" where
  "apply_transform_Rx_plus_v R v pose =
     map (\<lambda>r. \<lparr> atom_N = Rx_plus_v R v (atom_N r),
                atom_CA = Rx_plus_v R v (atom_CA r),
                atom_C = Rx_plus_v R v (atom_C r),
                other_atoms = map (Rx_plus_v R v) (other_atoms r) \<rparr>) pose"

text \<open>
  The function mutates \<open>pose_source\<close>. \<open>superimpose_poses_by_residues\<close> gives the value
  of \<open>pose_source\<close> after the call, from the values of the four arguments; the function
  on a store of objects follows.
\<close>

definition superimpose_poses_by_residues ::
  "svd_fun \<Rightarrow> pose \<Rightarrow> int list \<Rightarrow> pose \<Rightarrow> int list \<Rightarrow> error + pose" where
  "superimpose_poses_by_residues svd pose_source residues_source pose_target residues_target =
     (if length residues_source \<noteq> length residues_target then Inl AssertionError
      else case get_backbone_points pose_source residues_source of
             Inl e \<Rightarrow> Inl e
           | Inr points_source \<Rightarrow>
               (case get_backbone_points pose_target residues_target of
                  Inl e \<Rightarrow> Inl e
                | Inr points_target \<Rightarrow>
                    (case get_superimpose_transformation svd points_source points_target of
                       Inl e \<Rightarrow> Inl e
                     | Inr (M, t) \<Rightarrow> Inr (apply_transform_Rx_plus_v M t pose_source))))"

text \<open>
  The objects of a call: poses and residue lists, each behind a reference. Two arguments
  of a call may be the same object.
\<close>

record store =
  poses :: "nat \<Rightarrow> pose"
  residue_lists :: "nat \<Rightarrow> int list"

definition superimpose_poses_by_residues_in_store ::
  "svd_fun \<Rightarrow> store \<Rightarrow> nat \<Rightarrow> nat \<Rightarrow> nat \<Rightarrow> nat \<Rightarrow> error + store" where
  "superimpose_poses_by_residues_in_store svd s pose_source residues_source pose_target residues_target =
     (case superimpose_poses_by_residues svd
             (poses s pose_source) (residue_lists s residues_source)
             (poses s pose_target) (residue_lists s residues_target) of
        Inl e \<Rightarrow> Inl e
      | Inr p \<Rightarrow> Inr (s\<lparr> poses := (poses s)(pose_source := p) \<rparr>))"

subsection \<open>\<open>get_target_to_source_residue_map\<close>\<close>

definition s_t_distances :: "pose \<Rightarrow> pose \<Rightarrow> (int \<times> int \<times> real) list" where
  "s_t_distances pose_source pose_target =
     concat (map (\<lambda>i. map (\<lambda>j. (i, j, distance (atom_CA (pose_source ! nat (i - 1)))
                                               (atom_CA (pose_target ! nat (j - 1)))))
                           [1 .. int (length pose_target)])
                 [1 .. int (length pose_source)])"

text \<open>
  The dictionary \<open>res_map\<close> is the list of its items in insertion order; an item is only
  ever stored under a key that is not in the dictionary yet.
\<close>

fun res_map_loop :: "nat \<Rightarrow> (int \<times> int \<times> real) list \<Rightarrow> (int \<times> int) list \<Rightarrow> (int \<times> int) list" where
  "res_map_loop n [] res_map = res_map"
| "res_map_loop n (d # ds) res_map =
     (let res_map' =
            (if \<not> (fst (snd d) \<in> set (map fst res_map)) \<and> \<not> (fst d \<in> set (map snd res_map))
             then res_map @ [(fst (snd d), fst d)]
             else res_map)
      in if length res_map' = n then res_map' else res_map_loop n ds res_map')"

definition get_target_to_source_residue_map :: "pose \<Rightarrow> pose \<Rightarrow> (int \<times> int) list" where
  "get_target_to_source_residue_map pose_source pose_target =
     res_map_loop (length pose_source)
       (sort_key (\<lambda>x. snd (snd x)) (s_t_distances pose_source pose_target)) []"

subsection \<open>\<open>calculate_bb_remodeled_region_rmsds\<close>\<close>

text \<open>
  The body of the inner loop for the pair \<open>(i, j)\<close>: it superimposes the lowest energy
  model \<open>j\<close> on the design \<open>i\<close>, which changes that model, and gives the RMSD of the pair
  together with the model as the call leaves it. A lowest energy pose is never the same
  object as a design pose (it is loaded from its own file or cloned).
\<close>

definition source_and_target :: "pose \<Rightarrow> int list \<Rightarrow> pose \<Rightarrow> int list \<Rightarrow> pose \<times> pose \<times> int list" where
  \<comment> \<open>\<open>pose_source\<close>, \<open>pose_target\<close> and \<open>remodeled_residues_target\<close> of the pair\<close>
  "source_and_target pose_design_i remodeled_i pose_lowest_energy_j remodeled_j =
     (if length pose_design_i > length pose_lowest_energy_j
      then (pose_lowest_energy_j, pose_design_i, remodeled_i)
      else (pose_design_i, pose_lowest_energy_j, remodeled_j))"

definition remodeled_aligned_residues :: "pose \<Rightarrow> pose \<Rightarrow> int list \<Rightarrow> (int \<times> int) list" where
  \<comment> \<open>the items \<open>(k, res_map[k])\<close> whose key is a remodeled residue of the target, in the order
      of the keys: their keys are \<open>remodeled_aligned_residues_target\<close>, their values
      \<open>remodeled_aligned_residues_source\<close>\<close>
  "remodeled_aligned_residues pose_source pose_target remodeled_residues_target =
     [kv \<leftarrow> get_target_to_source_residue_map pose_source pose_target.
        fst kv \<in> set remodeled_residues_target]"

definition rmsd_of_pair ::
  "svd_fun \<Rightarrow> pose \<Rightarrow> int list \<Rightarrow> int list \<Rightarrow> pose \<Rightarrow> int list \<Rightarrow> int list \<Rightarrow> error + (real \<times> pose)" where
  "rmsd_of_pair svd pose_design_i remodeled_i fixed_i pose_lowest_energy_j remodeled_j fixed_j =
     (case superimpose_poses_by_residues svd pose_lowest_energy_j fixed_j pose_design_i fixed_i of
        Inl e \<Rightarrow> Inl e
      | Inr pose_j \<Rightarrow>
          (case source_and_target pose_design_i remodeled_i pose_j remodeled_j of
             (pose_source, pose_target, remodeled_residues_target) \<Rightarrow>
               (let aligned = remodeled_aligned_residues pose_source pose_target remodeled_residues_target
                in case calc_backbone_RMSD pose_source (map snd aligned) pose_target (map fst aligned) of
                     Inl e \<Rightarrow> Inl e
                   | Inr rmsd \<Rightarrow> Inr (rmsd, pose_j))))"

text \<open>
  The loops over \<open>j\<close> and over \<open>i\<close>; the state they pass on is the list of the lowest
  energy poses.
\<close>

fun rmsd_row ::
  "svd_fun \<Rightarrow> pose list \<Rightarrow> int list list \<Rightarrow> int list list \<Rightarrow> nat \<Rightarrow> nat list \<Rightarrow> pose list
     \<Rightarrow> error + (real list \<times> pose list)" where
  "rmsd_row svd pose_designs remodeled fixed i [] pose_lowest_energies = Inr ([], pose_lowest_energies)"
| "rmsd_row svd pose_designs remodeled fixed i (j # js) pose_lowest_energies =
     (case rmsd_of_pair svd (pose_designs ! i) (remodeled ! i) (fixed ! i)
             (pose_lowest_energies ! j) (remodeled ! j) (fixed ! j) of
        Inl e \<Rightarrow> Inl e
      | Inr (rmsd, pose_j) \<Rightarrow>
          (case rmsd_row svd pose_designs remodeled fixed i js (pose_lowest_energies[j := pose_j]) of
             Inl e \<Rightarrow> Inl e
           | Inr (row, poses') \<Rightarrow> Inr (rmsd # row, poses')))"

fun rmsd_rows ::
  "svd_fun \<Rightarrow> pose list \<Rightarrow> int list list \<Rightarrow> int list list \<Rightarrow> nat list \<Rightarrow> nat list \<Rightarrow> pose list
     \<Rightarrow> error + (real list list \<times> pose list)" where
  "rmsd_rows svd pose_designs remodeled fixed [] js pose_lowest_energies = Inr ([], pose_lowest_energies)"
| "rmsd_rows svd pose_designs remodeled fixed (i # is) js pose_lowest_energies =
     (case rmsd_row svd pose_designs remodeled fixed i js pose_lowest_energies of
        Inl e \<Rightarrow> Inl e
      | Inr (row, poses') \<Rightarrow>
          (case rmsd_rows svd pose_designs remodeled fixed is js poses' of
             Inl e \<Rightarrow> Inl e
           | Inr (rows, poses'') \<Rightarrow> Inr (row # rows, poses'')))"

text \<open>The loading loop fills four lists, one entry for each design path.\<close>

fun load_designs ::
  "design_dir list \<Rightarrow> error + (pose list \<times> pose list \<times> int list list \<times> int list list)" where
  "load_designs [] = Inr ([], [], [], [])"
| "load_designs (d # ds) =
     (case load_design d of
        Inl e \<Rightarrow> Inl e
      | Inr (pose_design, pose_lowest_energy, bb_remodeled_residues, bb_fixed_residues) \<Rightarrow>
          (case load_designs ds of
             Inl e \<Rightarrow> Inl e
           | Inr (pose_designs, pose_lowest_energies, all_bb_remodeled_residues, all_bb_fixed_residues) \<Rightarrow>
               Inr (pose_design # pose_designs, pose_lowest_energy # pose_lowest_energies,
                    bb_remodeled_residues # all_bb_remodeled_residues,
                    bb_fixed_residues # all_bb_fixed_residues)))"

definition calculate_bb_remodeled_region_rmsds :: "svd_fun \<Rightarrow> design_dir list \<Rightarrow> error + real list list" where
  "calculate_bb_remodeled_region_rmsds svd design_paths =
     (let design_paths = [d \<leftarrow> design_paths. design_pdb_gz d \<noteq> None]
      in case load_designs design_paths of
           Inl e \<Rightarrow> Inl e
         | Inr (pose_designs, pose_lowest_energies, all_bb_remodeled_residues, all_bb_fixed_residues) \<Rightarrow>
             (case rmsd_rows svd pose_designs all_bb_remodeled_residues all_bb_fixed_residues
                     [0 ..< length design_paths] [0 ..< length design_paths] pose_lowest_energies of
                Inl e \<Rightarrow> Inl e
              | Inr (RMSDs, poses') \<Rightarrow> Inr RMSDs))"

text \<open>
  Of \<open>plot_bb_remodeled_region_rmsds\<close>, what it computes before it draws: the paths it
  keeps (those with a \<open>design_info.json\<close>), which label the axes, and the matrix of
  \<open>calculate_bb_remodeled_region_rmsds\<close> for them. The drawing is matplotlib's.
\<close>

definition plot_bb_remodeled_region_rmsds ::
  "svd_fun \<Rightarrow> design_dir list \<Rightarrow> error + (real list list \<times> design_dir list)" where
  "plot_bb_remodeled_region_rmsds svd design_paths =
     (let design_paths = [d \<leftarrow> design_paths. design_info_json d \<noteq> None]
      in case calculate_bb_remodeled_region_rmsds svd design_paths of
           Inl e \<Rightarrow> Inl e
         | Inr rmsds \<Rightarrow> Inr (rmsds, design_paths))"

section \<open>The filter module\<close>

subsection \<open>\<open>get_backrub_ensemble_consensus_buhs_for_each_res\<close>\<close>

text \<open>
  The backrub mover and \<open>get_buhs_for_each_res\<close> are collaborators. The mover is random:
  \<open>backrub i j pose\<close> is the copy of \<open>pose\<close> it leaves at the repeat \<open>j\<close> of the segment
  \<open>i\<close>, \<open>num_segments pose\<close> the number of segments it reports after its first call.
\<close>

fun keep_consensus :: "nat list \<Rightarrow> int list \<Rightarrow> int list \<Rightarrow> error + int list" where
  \<comment> \<open>the loop over \<open>k\<close>, which runs through the indices of \<open>buhs_for_each_res\<close>\<close>
  "keep_consensus [] buhs_for_each_res tmp_buh_for_each_res = Inr buhs_for_each_res"
| "keep_consensus (k # ks) buhs_for_each_res tmp_buh_for_each_res =
     (if k < length tmp_buh_for_each_res \<and> k < length buhs_for_each_res
      then keep_consensus ks
             (buhs_for_each_res[k := min (buhs_for_each_res ! k) (tmp_buh_for_each_res ! k)])
             tmp_buh_for_each_res
      else Inl IndexError)"

fun backrub_repeats ::
  "(nat \<Rightarrow> nat \<Rightarrow> 'p \<Rightarrow> 'p) \<Rightarrow> ('p \<Rightarrow> int list) \<Rightarrow> 'p \<Rightarrow> nat \<Rightarrow> nat list \<Rightarrow> int list \<Rightarrow> error + int list" where
  \<comment> \<open>the loop over \<open>j\<close>\<close>
  "backrub_repeats backrub get_buhs_for_each_res pose i [] buhs_for_each_res = Inr buhs_for_each_res"
| "backrub_repeats backrub get_buhs_for_each_res pose i (j # js) buhs_for_each_res =
     (let tmp_pose = backrub i j pose;
          tmp_buh_for_each_res = get_buhs_for_each_res tmp_pose
      in case keep_consensus [0 ..< length buhs_for_each_res] buhs_for_each_res tmp_buh_for_each_res of
           Inl e \<Rightarrow> Inl e
         | Inr buhs' \<Rightarrow> backrub_repeats backrub get_buhs_for_each_res pose i js buhs')"

fun backrub_segments ::
  "(nat \<Rightarrow> nat \<Rightarrow> 'p \<Rightarrow> 'p) \<Rightarrow> ('p \<Rightarrow> int list) \<Rightarrow> 'p \<Rightarrow> nat list \<Rightarrow> int list \<Rightarrow> error + int list" where
  \<comment> \<open>the loop over \<open>i\<close>\<close>
  "backrub_segments backrub get_buhs_for_each_res pose [] buhs_for_each_res = Inr buhs_for_each_res"
| "backrub_segments backrub get_buhs_for_each_res pose (i # is) buhs_for_each_res =
     (case backrub_repeats backrub get_buhs_for_each_res pose i [0 ..< 5] buhs_for_each_res of
        Inl e \<Rightarrow> Inl e
      | Inr buhs' \<Rightarrow> backrub_segments backrub get_buhs_for_each_res pose is buhs')"

definition get_backrub_ensemble_consensus_buhs_for_each_res ::
  "('p \<Rightarrow> nat) \<Rightarrow> (nat \<Rightarrow> nat \<Rightarrow> 'p \<Rightarrow> 'p) \<Rightarrow> ('p \<Rightarrow> int list) \<Rightarrow> 'p \<Rightarrow> error + int list" where
  "get_backrub_ensemble_consensus_buhs_for_each_res num_segments backrub get_buhs_for_each_res pose =
     backrub_segments backrub get_buhs_for_each_res pose [1 ..< num_segments pose + 1]
       (get_buhs_for_each_res pose)"

subsection \<open>\<open>generate_filter_scores\<close>: the over-saturated acceptor scores\<close>

text \<open>
  Of \<open>generate_filter_scores\<close>, the residue lists of its first two lines and the three
  entries of \<open>filter_scores\<close> that it stores under the over-saturated-acceptor keys. The
  filter behind \<open>get_num_over_saturated_hbond_acceptors\<close> is Rosetta's: a function of the
  pose and of the acceptor residues it is given.
\<close>

definition movable_residues :: "int list \<Rightarrow> int list \<Rightarrow> int list" where
  "movable_residues designable_residues repackable_residues = designable_residues @ repackable_residues"

definition all_residues :: "pose \<Rightarrow> int list" where
  \<comment> \<open>\<open>list(range(1, pose.size()))\<close>\<close>
  "all_residues pose = [1 .. int (length pose) - 1]"

definition over_saturated_hbond_acceptor_scores ::
  "(pose \<Rightarrow> int list \<Rightarrow> real) \<Rightarrow> pose \<Rightarrow> int list \<Rightarrow> int list \<Rightarrow> (string \<times> real) list" where
  "over_saturated_hbond_acceptor_scores get_num_over_saturated_hbond_acceptors pose
       designable_residues repackable_residues =
     [(''num_over_saturated_hbond_acceptors_for_designable_residues'',
         get_num_over_saturated_hbond_acceptors pose designable_residues),
      (''num_over_saturated_hbond_acceptors_for_movable_residues'',
         get_num_over_saturated_hbond_acceptors pose designable_residues),
      (''num_over_saturated_hbond_acceptors_for_all_residues'',
         get_num_over_saturated_hbond_acceptors pose designable_residues)]"

section \<open>Example inputs\<close>

text \<open>
  A residue whose backbone atoms have their centroid at the origin and a diagonal
  covariance, a second residue away from it, and design directories built from them.
\<close>

definition example_residue :: residue where
  "example_residue =
     \<lparr> atom_N = (1, 0, 0), atom_CA = (- (1 / 2), 1 / 2, 0), atom_C = (- (1 / 2), - (1 / 2), 0),
       other_atoms = [(0, 0, 1)] \<rparr>"

definition example_residue2 :: residue where
  "example_residue2 =
     \<lparr> atom_N = (2, 0, 0), atom_CA = (3, 0, 0), atom_C = (4, 0, 0), other_atoms = [] \<rparr>"

definition example_pose :: pose where
  "example_pose = [example_residue, example_residue2]"

definition example_design :: design_dir where
  "example_design =
     \<lparr> design_pdb_gz = Some example_pose, lowest_energy_model_pdb = None,
       design_info_json = Some [(''bb_remodeled_residues'', [2])] \<rparr>"

definition example_design_no_remodeled :: design_dir where
  "example_design_no_remodeled =
     \<lparr> design_pdb_gz = Some [example_residue], lowest_energy_model_pdb = None,
       design_info_json = Some [(''bb_remodeled_residues'', [])] \<rparr>"

definition example_dir_without_pdb :: design_dir where
  "example_dir_without_pdb =
     \<lparr> design_pdb_gz = None, lowest_energy_model_pdb = None,
       design_info_json = Some [(''bb_remodeled_residues'', [1])] \<rparr>"

definition example_pose_moved :: pose where
  \<comment> \<open>\<open>example_pose\<close> moved by \<open>(1, 2, 3)\<close>\<close>
  "example_pose_moved =
     [\<lparr> atom_N = (2, 2, 3), atom_CA = (1 / 2, 5 / 2, 3), atom_C = (1 / 2, 3 / 2, 3),
        other_atoms = [(1, 2, 4)] \<rparr>,
      \<lparr> atom_N = (3, 2, 3), atom_CA = (4, 2, 3), atom_C = (5, 2, 3), other_atoms = [] \<rparr>]"

definition example_store :: store where
  "example_store =
     \<lparr> poses = (\<lambda>r. if r = 0 then example_pose else example_pose_moved),
       residue_lists = (\<lambda>r. [1]) \<rparr>"

text \<open>A stand-in for the over-saturated acceptor filter: it counts the residues it is given.\<close>

definition example_acceptor_filter :: "pose \<Rightarrow> int list \<Rightarrow> real" where
  "example_acceptor_filter pose acceptor_residues = real (length acceptor_residues)"

text \<open>
  A singular value decomposition of the matrices that are diagonal with a descending
  diagonal of non-negative entries: both outer factors are the identity.
\<close>

fun example_svd :: svd_fun where
  "example_svd ((a, b, c), (d, e, f), (g, h, i)) = (mat_id, (a, e, i), mat_id)"

text \<open>The quarter turn about the third axis, and a translation.\<close>

definition example_rotation :: mat3 where
  "example_rotation = ((0, - 1, 0), (1, 0, 0), (0, 0, 1))"

definition example_translation :: vec3 where
  "example_translation = (1, 2, 3)"

definition example_points :: "vec3 list" where
  \<comment> \<open>the backbone atoms of \<open>example_residue\<close>\<close>
  "example_points = [(1, 0, 0), (- (1 / 2), 1 / 2, 0), (- (1 / 2), - (1 / 2), 0)]"

definition example_half_turn :: mat3 where
  \<comment> \<open>the half turn about the third axis\<close>
  "example_half_turn = ((- 1, 0, 0), (0, - 1, 0), (0, 0, 1))"

text \<open>
  The factors of the cross-covariance of the backbone of \<open>example_residue\<close> with its
  image under \<open>example_rotation\<close>.
\<close>

definition example_svd_rotated :: svd_fun where
  "example_svd_rotated H = (mat_id, (3 / 2, 1 / 2, 0), transpose3 example_rotation)"

text \<open>
  Stand-ins for the collaborators of the backrub consensus: a pose is stood for by its
  counts of buried unsatisfied hydrogen bonds, the mover reports two segments, and the
  copy it leaves at the repeat \<open>j\<close> of the segment \<open>i\<close> has every count moved by \<open>i - j\<close>.
\<close>

definition example_num_segments :: "int list \<Rightarrow> nat" where
  "example_num_segments pose = 2"

definition example_backrub :: "nat \<Rightarrow> nat \<Rightarrow> int list \<Rightarrow> int list" where
  "example_backrub i j pose = map (\<lambda>c. c + int i - int j) pose"

definition example_get_buhs_for_each_res :: "int list \<Rightarrow> int list" where
  "example_get_buhs_for_each_res pose = pose"

section \<open>Properties\<close>

subsection \<open>Fixed and remodeled residues\<close>

text \<open>
  Claim C4. When \<open>load_design\<close> returns and the manifest's \<open>bb_remodeled_residues\<close> are
  positions of the designed structure (each in \<open>1..L\<close>, \<open>L\<close> its length), the fixed
  residues it computes are the complement of the remodeled ones in \<open>1..L\<close>: the two sets
  are disjoint and their union is \<open>{1..L}\<close>.
\<close>

theorem load_design_partition:
  assumes "load_design d = Inr (pose_design, pose_lowest_energy, bb_remodeled, bb_fixed)"
    and "set bb_remodeled \<subseteq> {1 .. int (length pose_design)}"
  shows "set bb_fixed = {1 .. int (length pose_design)} - set bb_remodeled
       \<and> set bb_remodeled \<inter> set bb_fixed = {}
       \<and> set bb_remodeled \<union> set bb_fixed = {1 .. int (length pose_design)}"
  using assms
  by (auto simp: load_design_def Let_def split: option.splits)

theorem load_design_partition_witness:
  "load_design example_design = Inr (example_pose, example_pose, [2], [1])
   \<and> set [2] \<subseteq> {1 .. int (length example_pose)}
   \<and> set [1 :: int] = {1 .. int (length example_pose)} - set [2]
   \<and> set [2 :: int] \<inter> set [1] = {}
   \<and> set [2 :: int] \<union> set [1] = {1 .. int (length example_pose)}"
proof -
  have l: "load_design example_design = Inr (example_pose, example_pose, [2], [1])"
    by (simp add: load_design_def example_design_def example_pose_def upto.simps)
  have r: "set [2] \<subseteq> {1 .. int (length example_pose)}"
    by (simp add: example_pose_def)
  from load_design_partition [OF l r] l r show ?thesis by blast
qed

subsection \<open>Backbone RMSD\<close>

lemma get_backbone_points_length:
  "get_backbone_points pose rs = Inr pts \<Longrightarrow> length pts = 3 * length rs"
  by (induction rs arbitrary: pts) (auto split: sum.splits)

lemma get_backbone_points_error:
  "get_backbone_points pose rs = Inl e \<Longrightarrow> e = ResidueIndexError"
  by (induction rs) (auto simp: residue_at_def split: sum.splits if_splits)

lemma get_backbone_points_valid:
  "\<forall>r\<in>set rs. 1 \<le> r \<and> r \<le> int (length pose) \<Longrightarrow> \<exists>pts. get_backbone_points pose rs = Inr pts"
  by (induction rs) (auto simp: residue_at_def)

lemma vdot_vsub_self: "vdot (vsub p p) (vsub p p) = 0"
  by (cases p) simp

lemma vdot_vsub_commute: "vdot (vsub p q) (vsub p q) = vdot (vsub q p) (vsub q p)"
  by (cases p; cases q) (simp add: algebra_simps)

lemma RMSD_commute:
  assumes "length ps = length qs"
  shows "RMSD ps qs = RMSD qs ps"
proof -
  from assms have "map (\<lambda>d. vdot d d) (map2 vsub ps qs) = map (\<lambda>d. vdot d d) (map2 vsub qs ps)"
    by (induction ps qs rule: list_induct2) (simp_all add: vdot_vsub_commute)
  with assms show ?thesis by (simp add: RMSD_def Let_def)
qed

lemma RMSD_same:
  assumes "ps \<noteq> []"
  shows "RMSD ps ps = Inr 0"
proof -
  have "sum_list (map (\<lambda>d. vdot d d) (map2 vsub ps ps)) = 0"
    by (induction ps) (simp_all add: vdot_vsub_self)
  with assms show ?thesis by (simp add: RMSD_def Let_def)
qed

lemma calc_backbone_RMSD_commute:
  "calc_backbone_RMSD pose1 residues1 pose2 residues2 = calc_backbone_RMSD pose2 residues2 pose1 residues1"
proof (cases "length residues1 = length residues2")
  case False
  then show ?thesis by (simp add: calc_backbone_RMSD_def)
next
  case True
  then show ?thesis
    by (auto simp: calc_backbone_RMSD_def split: sum.splits
          dest!: get_backbone_points_length get_backbone_points_error intro!: RMSD_commute)
qed

lemma calc_backbone_RMSD_same:
  assumes "residues \<noteq> []" and "\<forall>r\<in>set residues. 1 \<le> r \<and> r \<le> int (length pose)"
  shows "calc_backbone_RMSD pose residues pose residues = Inr 0"
proof -
  from assms(2) obtain pts where p: "get_backbone_points pose residues = Inr pts"
    using get_backbone_points_valid by blast
  with assms(1) have "pts \<noteq> []" using get_backbone_points_length by fastforce
  with p show ?thesis by (simp add: calc_backbone_RMSD_def RMSD_same)
qed

text \<open>
  Claim C5. The backbone RMSD of a pose with itself, over a non-empty list of residues of
  the pose (positions in \<open>1..size\<close>), is 0; and the backbone RMSD is symmetric: exchanging
  the two pose and residue-list pairs gives the same result. The symmetry holds for all
  arguments, so in particular for residue lists that are non-empty and of equal length.
\<close>

theorem calc_backbone_RMSD_zero_and_symmetric:
  "(residues \<noteq> [] \<and> (\<forall>r\<in>set residues. 1 \<le> r \<and> r \<le> int (length pose))
      \<longrightarrow> calc_backbone_RMSD pose residues pose residues = Inr 0)
   \<and> calc_backbone_RMSD pose1 residues1 pose2 residues2
       = calc_backbone_RMSD pose2 residues2 pose1 residues1"
  using calc_backbone_RMSD_same [of residues pose]
    calc_backbone_RMSD_commute [of pose1 residues1 pose2 residues2]
  by blast

theorem calc_backbone_RMSD_zero_and_symmetric_witness:
  "[1, 2] \<noteq> ([] :: int list) \<and> set [1, 2] \<subseteq> {1 .. int (length example_pose)}
   \<and> calc_backbone_RMSD example_pose [1, 2] example_pose [1, 2] = Inr 0
   \<and> calc_backbone_RMSD example_pose [1] [example_residue2] [1]
       = calc_backbone_RMSD [example_residue2] [1] example_pose [1]"
proof -
  have h: "[1, 2] \<noteq> ([] :: int list) \<and> (\<forall>r\<in>set [1, 2]. 1 \<le> r \<and> r \<le> int (length example_pose))"
    by (simp add: example_pose_def)
  have "set [1, 2] \<subseteq> {1 .. int (length example_pose)}"
    by (simp add: example_pose_def)
  with calc_backbone_RMSD_zero_and_symmetric
         [of "[1, 2]" example_pose example_pose "[1]" "[example_residue2]" "[1]"] h
  show ?thesis by blast
qed

subsection \<open>Errors of the superposition\<close>

text \<open>
  Claim C3. \<open>get_superimpose_transformation\<close> fails exactly when its two lists of points
  do not have the same length of at least 1: lists of different lengths raise the
  exception of the function, two empty lists fail too (in \<open>np.linalg.svd\<close>) and no
  transform is returned, and two non-empty lists of one length give a transform.
\<close>

theorem get_superimpose_transformation_errors:
  "(length P1 \<noteq> length P2 \<longrightarrow> get_superimpose_transformation svd P1 P2 = Inl SuperimposeError)
   \<and> get_superimpose_transformation svd [] [] = Inl LinAlgError
   \<and> (length P1 = length P2 \<and> 1 \<le> length P1 \<longrightarrow>
        (\<exists>M t. get_superimpose_transformation svd P1 P2 = Inr (M, t)))"
  by (simp add: get_superimpose_transformation_def Let_def case_prod_beta del: split_paired_Ex)

theorem get_superimpose_transformation_errors_witness:
  "length [(0, 0, 0) :: vec3] \<noteq> length ([] :: vec3 list)
   \<and> get_superimpose_transformation example_svd [(0, 0, 0)] [] = Inl SuperimposeError
   \<and> get_superimpose_transformation example_svd [] [] = Inl LinAlgError
   \<and> length [(0, 0, 0) :: vec3] = length [(1, 1, 1) :: vec3] \<and> 1 \<le> length [(0, 0, 0) :: vec3]
   \<and> (\<exists>M t. get_superimpose_transformation example_svd [(0, 0, 0)] [(1, 1, 1)] = Inr (M, t))"
  using get_superimpose_transformation_errors [of "[(0, 0, 0)]" "[]" example_svd]
    get_superimpose_transformation_errors [of "[(0, 0, 0)]" "[(1, 1, 1)]" example_svd]
  by (simp del: split_paired_Ex)

subsection \<open>The residue map\<close>

lemma unused_index:
  assumes "distinct xs" and "set xs \<subseteq> {1 .. int k}" and "length xs < k"
  shows "\<exists>i\<in>{1 .. int k}. i \<notin> set xs"
proof (rule ccontr)
  assume "\<not> (\<exists>i\<in>{1 .. int k}. i \<notin> set xs)"
  with assms(2) have "set xs = {1 .. int k}" by blast
  then have "card (set xs) = k" by simp
  with assms(1,3) show False by (simp add: distinct_card)
qed

lemma res_map_loop_matching:
  assumes "distinct (map fst m)" and "distinct (map snd m)"
    and "fst ` set m \<subseteq> {1 .. int mm}" and "snd ` set m \<subseteq> {1 .. int n}"
    and "\<forall>d\<in>set ds. fst d \<in> {1 .. int n} \<and> fst (snd d) \<in> {1 .. int mm}"
  shows "distinct (map fst (res_map_loop n ds m)) \<and> distinct (map snd (res_map_loop n ds m))
       \<and> fst ` set (res_map_loop n ds m) \<subseteq> {1 .. int mm}
       \<and> snd ` set (res_map_loop n ds m) \<subseteq> {1 .. int n}"
  using assms
proof (induction ds arbitrary: m)
  case Nil
  then show ?case by simp
next
  case (Cons d ds)
  let ?m' = "if \<not> (fst (snd d) \<in> set (map fst m)) \<and> \<not> (fst d \<in> set (map snd m))
             then m @ [(fst (snd d), fst d)] else m"
  have inv: "distinct (map fst ?m')" "distinct (map snd ?m')"
    "fst ` set ?m' \<subseteq> {1 .. int mm}" "snd ` set ?m' \<subseteq> {1 .. int n}"
    using Cons.prems by auto
  have rest: "\<forall>d\<in>set ds. fst d \<in> {1 .. int n} \<and> fst (snd d) \<in> {1 .. int mm}"
    using Cons.prems(5) by simp
  show ?case
  proof (cases "length ?m' = n")
    case True
    then have "res_map_loop n (d # ds) m = ?m'" by (simp add: Let_def)
    with inv show ?thesis by simp
  next
    case False
    then have "res_map_loop n (d # ds) m = res_map_loop n ds ?m'" by (simp add: Let_def)
    with Cons.IH [OF inv rest] show ?thesis by simp
  qed
qed

lemma res_map_loop_length:
  assumes "distinct (map fst m)" and "distinct (map snd m)"
    and "fst ` set m \<subseteq> {1 .. int mm}" and "snd ` set m \<subseteq> {1 .. int n}"
    and "n \<le> mm"
    and "\<forall>d\<in>set ds. fst d \<in> {1 .. int n} \<and> fst (snd d) \<in> {1 .. int mm}"
    and "\<forall>i\<in>{1 .. int n}. \<forall>j\<in>{1 .. int mm}.
           i \<notin> snd ` set m \<and> j \<notin> fst ` set m \<longrightarrow> (\<exists>d\<in>set ds. fst d = i \<and> fst (snd d) = j)"
  shows "length (res_map_loop n ds m) = n"
  using assms
proof (induction ds arbitrary: m)
  case Nil
  have le: "length m \<le> n"
  proof -
    have "card (set (map snd m)) \<le> card {1 .. int n}"
      using Nil.prems(4) by (intro card_mono) auto
    with distinct_card [OF Nil.prems(2)] show ?thesis by simp
  qed
  have "\<not> length m < n"
  proof
    assume less: "length m < n"
    from unused_index [of "map snd m" n] Nil.prems(2,4) less
    obtain i where i: "i \<in> {1 .. int n}" "i \<notin> snd ` set m" by auto
    from unused_index [of "map fst m" mm] Nil.prems(1,3,5) less
    obtain j where j: "j \<in> {1 .. int mm}" "j \<notin> fst ` set m" by auto
    from Nil.prems(7) i j show False by auto
  qed
  with le show ?case by simp
next
  case (Cons d ds)
  let ?m' = "if \<not> (fst (snd d) \<in> set (map fst m)) \<and> \<not> (fst d \<in> set (map snd m))
             then m @ [(fst (snd d), fst d)] else m"
  show ?case
  proof (cases "length ?m' = n")
    case True
    then show ?thesis by (simp add: Let_def)
  next
    case False
    have inv: "distinct (map fst ?m')" "distinct (map snd ?m')"
      "fst ` set ?m' \<subseteq> {1 .. int mm}" "snd ` set ?m' \<subseteq> {1 .. int n}"
      using Cons.prems(1-4,6) by auto
    have rest: "\<forall>d\<in>set ds. fst d \<in> {1 .. int n} \<and> fst (snd d) \<in> {1 .. int mm}"
      using Cons.prems(6) by simp
    have todo: "\<forall>i\<in>{1 .. int n}. \<forall>j\<in>{1 .. int mm}.
           i \<notin> snd ` set ?m' \<and> j \<notin> fst ` set ?m' \<longrightarrow> (\<exists>d\<in>set ds. fst d = i \<and> fst (snd d) = j)"
    proof (intro ballI impI)
      fix i j
      assume i: "i \<in> {1 .. int n}" and j: "j \<in> {1 .. int mm}"
        and free: "i \<notin> snd ` set ?m' \<and> j \<notin> fst ` set ?m'"
      then have free0: "i \<notin> snd ` set m \<and> j \<notin> fst ` set m" by (auto split: if_splits)
      with Cons.prems(7) i j obtain d' where d': "d' \<in> set (d # ds)" "fst d' = i" "fst (snd d') = j"
        by blast
      have "d' \<noteq> d"
      proof
        assume "d' = d"
        with d' free0 have "?m' = m @ [(j, i)]" by auto
        with free show False by simp
      qed
      with d' show "\<exists>d\<in>set ds. fst d = i \<and> fst (snd d) = j" by auto
    qed
    from False have "res_map_loop n (d # ds) m = res_map_loop n ds ?m'" by (simp add: Let_def)
    with Cons.IH [OF inv Cons.prems(5) rest todo] show ?thesis by simp
  qed
qed


lemma s_t_distances_set:
  "set (s_t_distances ps pt) =
     {(i, j, distance (atom_CA (ps ! nat (i - 1))) (atom_CA (pt ! nat (j - 1)))) | i j.
        i \<in> {1 .. int (length ps)} \<and> j \<in> {1 .. int (length pt)}}"
  by (auto simp: s_t_distances_def)

text \<open>
  Claim C2. For a source pose of at least one residue and a target pose that is at least
  as long, the map of \<open>get_target_to_source_residue_map\<close> has no target residue twice
  among its keys and no source residue twice among its values, its keys are residues of
  the target and its values residues of the source, and it has as many entries as the
  source pose has residues.
\<close>

theorem residue_map_injective_and_full:
  assumes "1 \<le> length pose_source" and "length pose_source \<le> length pose_target"
  shows "distinct (map fst (get_target_to_source_residue_map pose_source pose_target))
       \<and> distinct (map snd (get_target_to_source_residue_map pose_source pose_target))
       \<and> fst ` set (get_target_to_source_residue_map pose_source pose_target) \<subseteq> {1 .. int (length pose_target)}
       \<and> snd ` set (get_target_to_source_residue_map pose_source pose_target) \<subseteq> {1 .. int (length pose_source)}
       \<and> length (get_target_to_source_residue_map pose_source pose_target) = length pose_source"
proof -
  let ?ds = "sort_key (\<lambda>x. snd (snd x)) (s_t_distances pose_source pose_target)"
  have range: "\<forall>d\<in>set ?ds. fst d \<in> {1 .. int (length pose_source)} \<and> fst (snd d) \<in> {1 .. int (length pose_target)}"
    by (auto simp: s_t_distances_set)
  have all: "\<forall>i\<in>{1 .. int (length pose_source)}. \<forall>j\<in>{1 .. int (length pose_target)}.
           i \<notin> snd ` set [] \<and> j \<notin> fst ` set [] \<longrightarrow> (\<exists>d\<in>set ?ds. fst d = i \<and> fst (snd d) = j)"
    by (auto simp: s_t_distances_set)
  from res_map_loop_matching [of "[]" "length pose_target" "length pose_source" ?ds] range
    res_map_loop_length [of "[]" "length pose_target" "length pose_source" ?ds] assms(2) range all
  show ?thesis unfolding get_target_to_source_residue_map_def by simp
qed

lemma example_residue_map_shorter:
  "get_target_to_source_residue_map [example_residue2] example_pose = [(2, 1)]"
  by (simp add: get_target_to_source_residue_map_def s_t_distances_def example_pose_def
        example_residue_def example_residue2_def distance_def upto.simps Let_def)

theorem residue_map_injective_and_full_witness:
  "1 \<le> length [example_residue2] \<and> length [example_residue2] \<le> length example_pose
   \<and> get_target_to_source_residue_map [example_residue2] example_pose = [(2, 1)]
   \<and> distinct (map fst (get_target_to_source_residue_map [example_residue2] example_pose))
   \<and> distinct (map snd (get_target_to_source_residue_map [example_residue2] example_pose))
   \<and> length (get_target_to_source_residue_map [example_residue2] example_pose)
       = length [example_residue2]"
proof -
  have h1: "1 \<le> length [example_residue2]" by simp
  have h2: "length [example_residue2] \<le> length example_pose" by (simp add: example_pose_def)
  from residue_map_injective_and_full [OF h1 h2] h1 h2 example_residue_map_shorter
  show ?thesis by blast
qed

subsection \<open>The backrub ensemble consensus\<close>

lemma keep_consensus_nth:
  assumes "\<forall>k\<in>set ks. k < length b \<and> k < length t" and "distinct ks"
  shows "\<exists>r. keep_consensus ks b t = Inr r \<and> length r = length b
           \<and> (\<forall>k<length b. r ! k = (if k \<in> set ks then min (b ! k) (t ! k) else b ! k))"
  using assms
proof (induction ks arbitrary: b)
  case Nil
  then show ?case by simp
next
  case (Cons k ks)
  let ?b' = "b[k := min (b ! k) (t ! k)]"
  have "\<forall>k\<in>set ks. k < length ?b' \<and> k < length t" and "distinct ks"
    using Cons.prems by simp_all
  from Cons.IH [OF this] obtain r where r: "keep_consensus ks ?b' t = Inr r"
    "length r = length ?b'"
    "\<forall>k'<length ?b'. r ! k' = (if k' \<in> set ks then min (?b' ! k') (t ! k') else ?b' ! k')"
    by blast
  have "keep_consensus (k # ks) b t = Inr r" using Cons.prems(1) r(1) by simp
  moreover have "length r = length b" using r(2) by simp
  moreover have "\<forall>k'<length b. r ! k' = (if k' \<in> set (k # ks) then min (b ! k') (t ! k') else b ! k')"
  proof (intro allI impI)
    fix k' assume k': "k' < length b"
    show "r ! k' = (if k' \<in> set (k # ks) then min (b ! k') (t ! k') else b ! k')"
    proof (cases "k' = k")
      case True
      with Cons.prems(2) have "k' \<notin> set ks" by simp
      with r(3) k' True show ?thesis by simp
    next
      case False
      with r(3) k' show ?thesis by simp
    qed
  qed
  ultimately show ?case by blast
qed

lemma keep_consensus_all:
  assumes "length b \<le> length t"
  shows "\<exists>r. keep_consensus [0 ..< length b] b t = Inr r \<and> length r = length b
           \<and> (\<forall>k<length b. r ! k = min (b ! k) (t ! k))"
  using keep_consensus_nth [of "[0 ..< length b]" b t] assms by auto

lemma Min_insert_min:
  assumes "finite S"
  shows "Min (insert (min a c) S) = Min (insert (a :: int) (insert c S))"
proof (cases "S = {}")
  case True
  then show ?thesis by simp
next
  case False
  with assms show ?thesis by (simp add: min.assoc)
qed

lemma backrub_repeats_nth:
  assumes "\<forall>j\<in>set js. length b \<le> length (g (br i j pose))"
  shows "\<exists>r. backrub_repeats br g pose i js b = Inr r \<and> length r = length b
           \<and> (\<forall>k<length b. r ! k = Min (insert (b ! k) ((\<lambda>j. g (br i j pose) ! k) ` set js)))"
  using assms
proof (induction js arbitrary: b)
  case Nil
  then show ?case by simp
next
  case (Cons j js)
  from Cons.prems have "length b \<le> length (g (br i j pose))" by simp
  from keep_consensus_all [OF this] obtain b' where b':
    "keep_consensus [0 ..< length b] b (g (br i j pose)) = Inr b'" "length b' = length b"
    "\<forall>k<length b. b' ! k = min (b ! k) (g (br i j pose) ! k)" by blast
  have "\<forall>j\<in>set js. length b' \<le> length (g (br i j pose))" using Cons.prems b'(2) by simp
  from Cons.IH [OF this] obtain r where r: "backrub_repeats br g pose i js b' = Inr r"
    "length r = length b'"
    "\<forall>k<length b'. r ! k = Min (insert (b' ! k) ((\<lambda>j. g (br i j pose) ! k) ` set js))" by blast
  have "backrub_repeats br g pose i (j # js) b = Inr r" using b'(1) r(1) by (simp add: Let_def)
  moreover have "length r = length b" using r(2) b'(2) by simp
  moreover have "\<forall>k<length b. r ! k = Min (insert (b ! k) ((\<lambda>j. g (br i j pose) ! k) ` set (j # js)))"
    using r(3) b'(2,3) by (simp add: Min_insert_min insert_commute)
  ultimately show ?case by blast
qed

lemma Min_insert_Min:
  assumes "finite A" and "finite B"
  shows "Min (insert (Min (insert (a :: int) A)) B) = Min (insert a (A \<union> B))"
  using assms by (cases "A = {}"; cases "B = {}") (simp_all add: Min_Un min.assoc)

lemma pairs_image:
  "{f i j | i j. i \<in> A \<and> j \<in> B} = (\<lambda>(i, j). f i j) ` (A \<times> B)"
  by (auto simp: image_iff)

lemma backrub_segments_nth:
  assumes "\<forall>i\<in>set is. \<forall>j\<in>{0 ..< 5}. length (g (br i j pose)) = length b"
  shows "\<exists>r. backrub_segments br g pose is b = Inr r \<and> length r = length b
           \<and> (\<forall>k<length b. r ! k =
                 Min (insert (b ! k) {g (br i j pose) ! k | i j. i \<in> set is \<and> j \<in> {0 ..< 5}}))"
  using assms
proof (induction "is" arbitrary: b)
  case Nil
  then show ?case by simp
next
  case (Cons i "is")
  have "\<forall>j\<in>set [0 ..< 5]. length b \<le> length (g (br i j pose))" using Cons.prems by simp
  from backrub_repeats_nth [where js = "[0 ..< 5]" and b = b and g = g and br = br and i = i and pose = pose, OF this]
  obtain b' where b':
    "backrub_repeats br g pose i [0 ..< 5] b = Inr b'" "length b' = length b"
    "\<forall>k<length b. b' ! k = Min (insert (b ! k) ((\<lambda>j. g (br i j pose) ! k) ` set [0 ..< 5]))"
    by blast
  have "\<forall>i\<in>set is. \<forall>j\<in>{0 ..< 5}. length (g (br i j pose)) = length b'"
    using Cons.prems b'(2) by simp
  from Cons.IH [OF this] obtain r where r: "backrub_segments br g pose is b' = Inr r"
    "length r = length b'"
    "\<forall>k<length b'. r ! k =
        Min (insert (b' ! k) {g (br i j pose) ! k | i j. i \<in> set is \<and> j \<in> {0 ..< 5}})" by blast
  have "backrub_segments br g pose (i # is) b = Inr r" using b'(1) r(1) by simp
  moreover have "length r = length b" using r(2) b'(2) by simp
  moreover have "\<forall>k<length b. r ! k =
      Min (insert (b ! k) {g (br i' j pose) ! k | i' j. i' \<in> set (i # is) \<and> j \<in> {0 ..< 5}})"
  proof (intro allI impI)
    fix k assume k: "k < length b"
    let ?A = "(\<lambda>j. g (br i j pose) ! k) ` set [0 ..< 5]"
    let ?B = "{g (br i j pose) ! k | i j. i \<in> set is \<and> j \<in> {0 ..< 5}}"
    have B: "?B = (\<lambda>(i, j). g (br i j pose) ! k) ` (set is \<times> {0 ..< 5})"
      by (rule pairs_image)
    have fin: "finite ?A" "finite ?B" unfolding B by simp_all
    have "{g (br i' j pose) ! k | i' j. i' \<in> set (i # is) \<and> j \<in> {0 ..< 5}} = ?A \<union> ?B"
      by (auto simp: image_iff) blast+
    moreover have "r ! k = Min (insert (Min (insert (b ! k) ?A)) ?B)"
      using r(3) b'(2,3) k by simp
    ultimately show "r ! k =
      Min (insert (b ! k) {g (br i' j pose) ! k | i' j. i' \<in> set (i # is) \<and> j \<in> {0 ..< 5}})"
      using Min_insert_Min [OF fin] by simp
  qed
  ultimately show ?case by blast
qed

text \<open>
  Claim C8. When every perturbed copy gives as many counts as the original pose (the
  mover does not change the number of residues), the function returns a list of that
  length whose entry at each position \<open>k\<close> is the minimum of the original count at \<open>k\<close>
  and of the counts at \<open>k\<close> of the perturbed copies, five for each of the segments
  \<open>1..num_segments\<close>; so no entry is above the original count.
\<close>

theorem backrub_consensus_is_minimum:
  assumes "\<forall>i\<in>{1 .. num_segments pose}. \<forall>j\<in>{0 ..< 5}.
             length (get_buhs_for_each_res (backrub i j pose)) = length (get_buhs_for_each_res pose)"
  shows "\<exists>r. get_backrub_ensemble_consensus_buhs_for_each_res num_segments backrub get_buhs_for_each_res pose = Inr r
           \<and> length r = length (get_buhs_for_each_res pose)
           \<and> (\<forall>k<length (get_buhs_for_each_res pose).
                 r ! k = Min (insert (get_buhs_for_each_res pose ! k)
                            {get_buhs_for_each_res (backrub i j pose) ! k | i j.
                               i \<in> {1 .. num_segments pose} \<and> j \<in> {0 ..< 5}})
                 \<and> r ! k \<le> get_buhs_for_each_res pose ! k)"
proof -
  have s: "set [1 ..< num_segments pose + 1] = {1 .. num_segments pose}" by auto
  from backrub_segments_nth [of "[1 ..< num_segments pose + 1]" get_buhs_for_each_res backrub pose
         "get_buhs_for_each_res pose"] assms
  obtain r where r:
    "backrub_segments backrub get_buhs_for_each_res pose [1 ..< num_segments pose + 1] (get_buhs_for_each_res pose) = Inr r"
    "length r = length (get_buhs_for_each_res pose)"
    "\<forall>k<length (get_buhs_for_each_res pose).
        r ! k = Min (insert (get_buhs_for_each_res pose ! k)
                   {get_buhs_for_each_res (backrub i j pose) ! k | i j.
                      i \<in> {1 .. num_segments pose} \<and> j \<in> {0 ..< 5}})"
    unfolding s by blast
  have "\<forall>k<length (get_buhs_for_each_res pose). r ! k \<le> get_buhs_for_each_res pose ! k"
  proof (intro allI impI)
    fix k assume "k < length (get_buhs_for_each_res pose)"
    let ?B = "{get_buhs_for_each_res (backrub i j pose) ! k | i j.
                      i \<in> {1 .. num_segments pose} \<and> j \<in> {0 ..< 5}}"
    have "?B = (\<lambda>(i, j). get_buhs_for_each_res (backrub i j pose) ! k) ` ({1 .. num_segments pose} \<times> {0 ..< 5})"
      by (rule pairs_image)
    then have "finite ?B" by simp
    then have "Min (insert (get_buhs_for_each_res pose ! k) ?B) \<le> get_buhs_for_each_res pose ! k"
      by (intro Min_le) simp_all
    with r(3) \<open>k < length (get_buhs_for_each_res pose)\<close>
    show "r ! k \<le> get_buhs_for_each_res pose ! k" by simp
  qed
  with r show ?thesis
    unfolding get_backrub_ensemble_consensus_buhs_for_each_res_def by blast
qed

lemma example_consensus:
  "get_backrub_ensemble_consensus_buhs_for_each_res example_num_segments example_backrub
     example_get_buhs_for_each_res [3, 1] = Inr [0, - 2]"
  by (simp add: get_backrub_ensemble_consensus_buhs_for_each_res_def example_num_segments_def
        example_backrub_def example_get_buhs_for_each_res_def upt_rec)

theorem backrub_consensus_is_minimum_witness:
  "get_backrub_ensemble_consensus_buhs_for_each_res example_num_segments example_backrub
     example_get_buhs_for_each_res [3, 1] = Inr [0, - 2]
   \<and> (\<exists>r. get_backrub_ensemble_consensus_buhs_for_each_res example_num_segments example_backrub
             example_get_buhs_for_each_res [3, 1] = Inr r
          \<and> length r = length (example_get_buhs_for_each_res [3, 1])
          \<and> (\<forall>k<length (example_get_buhs_for_each_res [3, 1]).
                r ! k \<le> example_get_buhs_for_each_res [3, 1] ! k))"
proof -
  have h: "\<forall>i\<in>{1 .. example_num_segments [3, 1]}. \<forall>j\<in>{0 ..< 5}.
      length (example_get_buhs_for_each_res (example_backrub i j [3, 1]))
        = length (example_get_buhs_for_each_res [3, 1])"
    by (simp add: example_get_buhs_for_each_res_def example_backrub_def)
  from backrub_consensus_is_minimum
         [where num_segments = example_num_segments and backrub = example_backrub
            and get_buhs_for_each_res = example_get_buhs_for_each_res and pose = "[3, 1]", OF h]
    example_consensus
  show ?thesis by blast
qed

subsection \<open>The examples, evaluated\<close>

lemma example_backbone_1:
  "get_backbone_points example_pose [1] = Inr [(1, 0, 0), (- (1 / 2), 1 / 2, 0), (- (1 / 2), - (1 / 2), 0)]"
  by (simp add: example_pose_def example_residue_def residue_at_def)

lemma example_backbone_2:
  "get_backbone_points example_pose [2] = Inr [(2, 0, 0), (3, 0, 0), (4, 0, 0)]"
  by (simp add: example_pose_def example_residue2_def residue_at_def)

lemma example_backbone_single:
  "get_backbone_points [example_residue] [1] = Inr [(1, 0, 0), (- (1 / 2), 1 / 2, 0), (- (1 / 2), - (1 / 2), 0)]"
  by (simp add: example_residue_def residue_at_def)

lemma example_transformation:
  "get_superimpose_transformation example_svd
     [(1, 0, 0), (- (1 / 2), 1 / 2, 0), (- (1 / 2), - (1 / 2), 0)]
     [(1, 0, 0), (- (1 / 2), 1 / 2, 0), (- (1 / 2), - (1 / 2), 0)] = Inr (mat_id, vzero)"
  by (simp add: get_superimpose_transformation_def mean_def vsum_def vzero_def
        cross_covariance_def mzero_def mat_id_def Let_def)

lemma example_apply_identity:
  "apply_transform_Rx_plus_v mat_id vzero example_pose = example_pose"
  "apply_transform_Rx_plus_v mat_id vzero [example_residue] = [example_residue]"
  by (simp_all add: apply_transform_Rx_plus_v_def Rx_plus_v_def mat_id_def vzero_def
        example_pose_def example_residue_def example_residue2_def)

lemma example_superimpose:
  "superimpose_poses_by_residues example_svd example_pose [1] example_pose [1] = Inr example_pose"
  by (simp add: superimpose_poses_by_residues_def example_backbone_1 example_transformation
        example_apply_identity del: get_backbone_points.simps)

lemma example_superimpose_single:
  "superimpose_poses_by_residues example_svd [example_residue] [1] [example_residue] [1] = Inr [example_residue]"
  by (simp add: superimpose_poses_by_residues_def example_backbone_single example_transformation
        example_apply_identity del: get_backbone_points.simps)

lemma example_residue_map_same:
  "get_target_to_source_residue_map example_pose example_pose = [(1, 1), (2, 2)]"
  by (simp add: get_target_to_source_residue_map_def s_t_distances_def example_pose_def
        example_residue_def example_residue2_def distance_def upto.simps Let_def)

lemma example_rmsd_of_pair:
  "rmsd_of_pair example_svd example_pose [2] [1] example_pose [2] [1] = Inr (0, example_pose)"
  by (simp add: rmsd_of_pair_def example_superimpose source_and_target_def remodeled_aligned_residues_def
        example_residue_map_same calc_backbone_RMSD_def example_backbone_2 RMSD_def Let_def
        del: get_backbone_points.simps)

lemma example_load_design:
  "load_design example_design = Inr (example_pose, example_pose, [2], [1])"
  by (simp add: load_design_def example_design_def example_pose_def upto.simps)

lemma example_has_pdb:
  "design_pdb_gz example_design \<noteq> None" "design_pdb_gz example_dir_without_pdb = None"
  "design_pdb_gz example_design_no_remodeled \<noteq> None"
  by (simp_all add: example_design_def example_dir_without_pdb_def example_design_no_remodeled_def)

lemma example_calculate:
  "calculate_bb_remodeled_region_rmsds example_svd [example_dir_without_pdb, example_design] = Inr [[0]]"
  using example_has_pdb
  by (simp add: calculate_bb_remodeled_region_rmsds_def example_load_design example_rmsd_of_pair)

subsection \<open>The RMSD matrix\<close>

lemma rmsd_row_length:
  "rmsd_row svd pds rem fixed i js lows = Inr (row, lows') \<Longrightarrow> length row = length js"
  by (induction js arbitrary: lows row) (auto split: sum.splits prod.splits)

lemma rmsd_rows_length:
  "rmsd_rows svd pds rem fixed is js lows = Inr (rows, lows') \<Longrightarrow>
     length rows = length is \<and> (\<forall>row\<in>set rows. length row = length js)"
  by (induction "is" arbitrary: lows rows) (auto split: sum.splits prod.splits dest: rmsd_row_length)

lemma load_designs_length:
  "load_designs ds = Inr (pds, pls, rem, fixed) \<Longrightarrow>
     length pds = length ds \<and> length pls = length ds \<and> length rem = length ds \<and> length fixed = length ds"
  by (induction ds arbitrary: pds pls rem fixed) (auto split: sum.splits prod.splits)

text \<open>
  Claim C7. The design directories without \<open>design.pdb.gz\<close> are left out before anything
  is loaded or compared: the result of the batch, error or matrix, is the result for the
  retained directories alone, so a directory that lacks the file raises no error of its
  own; and a matrix that is returned has \<open>N\<close> rows of \<open>N\<close> entries, \<open>N\<close> the number of
  retained directories. The matrix that \<open>plot_bb_remodeled_region_rmsds\<close> draws is square
  in the same way, over the directories that have both \<open>design_info.json\<close> and
  \<open>design.pdb.gz\<close>.
\<close>

theorem missing_structure_excluded:
  "calculate_bb_remodeled_region_rmsds svd design_paths
     = calculate_bb_remodeled_region_rmsds svd [d \<leftarrow> design_paths. design_pdb_gz d \<noteq> None]
   \<and> (calculate_bb_remodeled_region_rmsds svd design_paths = Inr RMSDs \<longrightarrow>
        length RMSDs = length [d \<leftarrow> design_paths. design_pdb_gz d \<noteq> None]
        \<and> (\<forall>row\<in>set RMSDs. length row = length [d \<leftarrow> design_paths. design_pdb_gz d \<noteq> None]))
   \<and> (plot_bb_remodeled_region_rmsds svd design_paths = Inr (rmsds, labels) \<longrightarrow>
        length rmsds = length [d \<leftarrow> design_paths. design_info_json d \<noteq> None \<and> design_pdb_gz d \<noteq> None]
        \<and> (\<forall>row\<in>set rmsds.
              length row = length [d \<leftarrow> design_paths. design_info_json d \<noteq> None \<and> design_pdb_gz d \<noteq> None]))"
proof -
  have excluded: "calculate_bb_remodeled_region_rmsds svd ds
     = calculate_bb_remodeled_region_rmsds svd [d \<leftarrow> ds. design_pdb_gz d \<noteq> None]" for ds
    by (simp add: calculate_bb_remodeled_region_rmsds_def)
  have square: "length M = length [d \<leftarrow> ds. design_pdb_gz d \<noteq> None]
        \<and> (\<forall>row\<in>set M. length row = length [d \<leftarrow> ds. design_pdb_gz d \<noteq> None])"
    if "calculate_bb_remodeled_region_rmsds svd ds = Inr M" for ds M
    using that rmsd_rows_length
    by (fastforce simp: calculate_bb_remodeled_region_rmsds_def Let_def split: sum.splits prod.splits)
  have "length rmsds = length [d \<leftarrow> design_paths. design_info_json d \<noteq> None \<and> design_pdb_gz d \<noteq> None]
        \<and> (\<forall>row\<in>set rmsds.
              length row = length [d \<leftarrow> design_paths. design_info_json d \<noteq> None \<and> design_pdb_gz d \<noteq> None])"
    if p: "plot_bb_remodeled_region_rmsds svd design_paths = Inr (rmsds, labels)"
  proof -
    from p have "calculate_bb_remodeled_region_rmsds svd [d \<leftarrow> design_paths. design_info_json d \<noteq> None]
        = Inr rmsds"
      by (simp add: plot_bb_remodeled_region_rmsds_def Let_def split: sum.splits)
    from square [OF this] show ?thesis by (simp add: conj_commute)
  qed
  with excluded [of design_paths] square [of design_paths RMSDs] show ?thesis by blast
qed

theorem missing_structure_excluded_witness:
  "calculate_bb_remodeled_region_rmsds example_svd [example_dir_without_pdb, example_design] = Inr [[0]]
   \<and> plot_bb_remodeled_region_rmsds example_svd [example_dir_without_pdb, example_design]
       = Inr ([[0]], [example_dir_without_pdb, example_design])
   \<and> [d \<leftarrow> [example_dir_without_pdb, example_design]. design_pdb_gz d \<noteq> None] = [example_design]
   \<and> length [[0 :: real]] = length [d \<leftarrow> [example_dir_without_pdb, example_design]. design_pdb_gz d \<noteq> None]
   \<and> map length [[0 :: real]]
       = [length [d \<leftarrow> [example_dir_without_pdb, example_design]. design_pdb_gz d \<noteq> None]]"
proof -
  have "plot_bb_remodeled_region_rmsds example_svd [example_dir_without_pdb, example_design]
       = Inr ([[0]], [example_dir_without_pdb, example_design])"
    using example_calculate
    by (simp add: plot_bb_remodeled_region_rmsds_def example_dir_without_pdb_def example_design_def)
  with missing_structure_excluded
         [of example_svd "[example_dir_without_pdb, example_design]" "[[0]]" "[[0]]"
            "[example_dir_without_pdb, example_design]"]
    example_calculate example_has_pdb
  show ?thesis by simp
qed

subsection \<open>Division by zero in the RMSD\<close>

lemma rmsd_row_append:
  "rmsd_row svd pds rem fixed i (js1 @ js2) lows =
     (case rmsd_row svd pds rem fixed i js1 lows of
        Inl e \<Rightarrow> Inl e
      | Inr (row1, lows1) \<Rightarrow>
          (case rmsd_row svd pds rem fixed i js2 lows1 of
             Inl e \<Rightarrow> Inl e
           | Inr (row2, lows2) \<Rightarrow> Inr (row1 @ row2, lows2)))"
  by (induction js1 arbitrary: lows) (auto split: sum.splits prod.splits)

lemma rmsd_rows_append:
  "rmsd_rows svd pds rem fixed (is1 @ is2) js lows =
     (case rmsd_rows svd pds rem fixed is1 js lows of
        Inl e \<Rightarrow> Inl e
      | Inr (rows1, lows1) \<Rightarrow>
          (case rmsd_rows svd pds rem fixed is2 js lows1 of
             Inl e \<Rightarrow> Inl e
           | Inr (rows2, lows2) \<Rightarrow> Inr (rows1 @ rows2, lows2)))"
  by (induction is1 arbitrary: lows) (auto split: sum.splits prod.splits)

lemma calc_backbone_RMSD_empty: "calc_backbone_RMSD pose1 [] pose2 [] = Inl ZeroDivisionError"
  by (simp add: calc_backbone_RMSD_def RMSD_def)

lemma rmsd_of_pair_empty:
  assumes "superimpose_poses_by_residues svd pl fj pd fi = Inr pose_j"
    and "source_and_target pd ri pose_j rj = (ps, pt, rt)"
    and "remodeled_aligned_residues ps pt rt = []"
  shows "rmsd_of_pair svd pd ri fi pl rj fj = Inl ZeroDivisionError"
  using assms by (simp add: rmsd_of_pair_def calc_backbone_RMSD_empty)

lemma rmsd_rows_fail:
  assumes "i < n" and "j < n"
    and "rmsd_rows svd pds rem fixed [0 ..< i] [0 ..< n] lows = Inr (rows, lows1)"
    and "rmsd_row svd pds rem fixed i [0 ..< j] lows1 = Inr (row, lows2)"
    and "rmsd_of_pair svd (pds ! i) (rem ! i) (fixed ! i) (lows2 ! j) (rem ! j) (fixed ! j) = Inl e"
  shows "rmsd_rows svd pds rem fixed [0 ..< n] [0 ..< n] lows = Inl e"
proof -
  from assms(2) have js_split: "[0 ..< n] = [0 ..< j] @ j # [Suc j ..< n]"
    by (metis le_add2 le_add_same_cancel2 less_imp_add_positive upt_add_eq_append upt_conv_Cons zero_le)
  from assms(1) have is_split: "[0 ..< n] = [0 ..< i] @ i # [Suc i ..< n]"
    by (metis le_add2 le_add_same_cancel2 less_imp_add_positive upt_add_eq_append upt_conv_Cons zero_le)
  have "rmsd_row svd pds rem fixed i ([0 ..< j] @ j # [Suc j ..< n]) lows1 = Inl e"
    using assms(4,5) by (simp add: rmsd_row_append)
  then have row: "rmsd_row svd pds rem fixed i [0 ..< n] lows1 = Inl e" using js_split by simp
  have "rmsd_rows svd pds rem fixed ([0 ..< i] @ i # [Suc i ..< n]) [0 ..< n] lows = Inl e"
    using assms(3) row by (simp add: rmsd_rows_append)
  then show ?thesis using is_split by simp
qed


text \<open>
  Claim C9. \<open>calc_backbone_RMSD\<close> with two empty residue lists fails with
  \<open>ZeroDivisionError\<close>. So does the batch: when the designs are loaded, the rows before
  \<open>i\<close> and the entries before \<open>j\<close> of the row \<open>i\<close> are computed, the superposition of the
  pair \<open>(i, j)\<close> succeeds and no key of its residue map is a remodeled residue of its
  target, \<open>calculate_bb_remodeled_region_rmsds\<close> fails with \<open>ZeroDivisionError\<close> and
  returns no matrix.
\<close>

theorem empty_alignment_division_by_zero:
  "calc_backbone_RMSD pose1 [] pose2 [] = Inl ZeroDivisionError
   \<and> (load_designs [d \<leftarrow> design_paths. design_pdb_gz d \<noteq> None]
          = Inr (pose_designs, pose_lowest_energies, all_remodeled, all_fixed)
        \<and> i < length pose_designs \<and> j < length pose_designs
        \<and> rmsd_rows svd pose_designs all_remodeled all_fixed [0 ..< i] [0 ..< length pose_designs]
              pose_lowest_energies = Inr (rows, poses_i)
        \<and> rmsd_row svd pose_designs all_remodeled all_fixed i [0 ..< j] poses_i = Inr (row, poses_ij)
        \<and> superimpose_poses_by_residues svd (poses_ij ! j) (all_fixed ! j)
              (pose_designs ! i) (all_fixed ! i) = Inr pose_j
        \<and> source_and_target (pose_designs ! i) (all_remodeled ! i) pose_j (all_remodeled ! j)
              = (pose_source, pose_target, remodeled_residues_target)
        \<and> remodeled_aligned_residues pose_source pose_target remodeled_residues_target = []
      \<longrightarrow> calculate_bb_remodeled_region_rmsds svd design_paths = Inl ZeroDivisionError)"
proof (intro conjI impI)
  show "calc_backbone_RMSD pose1 [] pose2 [] = Inl ZeroDivisionError"
    by (rule calc_backbone_RMSD_empty)
next
  assume a: "load_designs [d \<leftarrow> design_paths. design_pdb_gz d \<noteq> None]
          = Inr (pose_designs, pose_lowest_energies, all_remodeled, all_fixed)
        \<and> i < length pose_designs \<and> j < length pose_designs
        \<and> rmsd_rows svd pose_designs all_remodeled all_fixed [0 ..< i] [0 ..< length pose_designs]
              pose_lowest_energies = Inr (rows, poses_i)
        \<and> rmsd_row svd pose_designs all_remodeled all_fixed i [0 ..< j] poses_i = Inr (row, poses_ij)
        \<and> superimpose_poses_by_residues svd (poses_ij ! j) (all_fixed ! j)
              (pose_designs ! i) (all_fixed ! i) = Inr pose_j
        \<and> source_and_target (pose_designs ! i) (all_remodeled ! i) pose_j (all_remodeled ! j)
              = (pose_source, pose_target, remodeled_residues_target)
        \<and> remodeled_aligned_residues pose_source pose_target remodeled_residues_target = []"
  then have "rmsd_of_pair svd (pose_designs ! i) (all_remodeled ! i) (all_fixed ! i)
               (poses_ij ! j) (all_remodeled ! j) (all_fixed ! j) = Inl ZeroDivisionError"
    using rmsd_of_pair_empty by blast
  with a have "rmsd_rows svd pose_designs all_remodeled all_fixed
                 [0 ..< length pose_designs] [0 ..< length pose_designs] pose_lowest_energies
               = Inl ZeroDivisionError"
    using rmsd_rows_fail by blast
  moreover from a have "length [d \<leftarrow> design_paths. design_pdb_gz d \<noteq> None] = length pose_designs"
    using load_designs_length by fastforce
  ultimately show "calculate_bb_remodeled_region_rmsds svd design_paths = Inl ZeroDivisionError"
    using a by (simp add: calculate_bb_remodeled_region_rmsds_def)
qed

lemma example_load_no_remodeled:
  "load_design example_design_no_remodeled = Inr ([example_residue], [example_residue], [], [1])"
  by (simp add: load_design_def example_design_no_remodeled_def upto.simps)

theorem empty_alignment_division_by_zero_witness:
  "load_designs [d \<leftarrow> [example_design_no_remodeled]. design_pdb_gz d \<noteq> None]
          = Inr ([[example_residue]], [[example_residue]], [[]], [[1]])
   \<and> 0 < length [[example_residue]]
   \<and> rmsd_rows example_svd [[example_residue]] [[]] [[1]] [0 ..< 0] [0 ..< length [[example_residue]]]
         [[example_residue]] = Inr ([], [[example_residue]])
   \<and> rmsd_row example_svd [[example_residue]] [[]] [[1]] 0 [0 ..< 0] [[example_residue]]
         = Inr ([], [[example_residue]])
   \<and> superimpose_poses_by_residues example_svd ([[example_residue]] ! 0) ([[1]] ! 0)
         ([[example_residue]] ! 0) ([[1]] ! 0) = Inr [example_residue]
   \<and> source_and_target ([[example_residue]] ! 0) ([[]] ! 0) [example_residue] ([[]] ! 0)
         = ([example_residue], [example_residue], [])
   \<and> remodeled_aligned_residues [example_residue] [example_residue] [] = []
   \<and> calculate_bb_remodeled_region_rmsds example_svd [example_design_no_remodeled]
         = Inl ZeroDivisionError"
proof -
  have h: "load_designs [d \<leftarrow> [example_design_no_remodeled]. design_pdb_gz d \<noteq> None]
          = Inr ([[example_residue]], [[example_residue]], [[]], [[1]])
   \<and> 0 < length [[example_residue]] \<and> 0 < length [[example_residue]]
   \<and> rmsd_rows example_svd [[example_residue]] [[]] [[1]] [0 ..< 0] [0 ..< length [[example_residue]]]
         [[example_residue]] = Inr ([], [[example_residue]])
   \<and> rmsd_row example_svd [[example_residue]] [[]] [[1]] 0 [0 ..< 0] [[example_residue]]
         = Inr ([], [[example_residue]])
   \<and> superimpose_poses_by_residues example_svd ([[example_residue]] ! 0) ([[1]] ! 0)
         ([[example_residue]] ! 0) ([[1]] ! 0) = Inr [example_residue]
   \<and> source_and_target ([[example_residue]] ! 0) ([[]] ! 0) [example_residue] ([[]] ! 0)
         = ([example_residue], [example_residue], [])
   \<and> remodeled_aligned_residues [example_residue] [example_residue] [] = []"
    using example_has_pdb(3)
    by (simp add: example_load_no_remodeled example_superimpose_single source_and_target_def
          remodeled_aligned_residues_def)
  from empty_alignment_division_by_zero [where design_paths = "[example_design_no_remodeled]" and svd = example_svd
        and pose_designs = "[[example_residue]]" and pose_lowest_energies = "[[example_residue]]"
        and all_remodeled = "[[]]" and all_fixed = "[[1]]" and i = 0 and j = 0
        and rows = "[]" and poses_i = "[[example_residue]]" and row = "[]"
        and poses_ij = "[[example_residue]]" and pose_j = "[example_residue]"
        and pose_source = "[example_residue]" and pose_target = "[example_residue]"
        and remodeled_residues_target = "[]"] h
  show ?thesis by blast
qed

subsection \<open>What the superposition changes\<close>

text \<open>
  Claim C10. A call of \<open>superimpose_poses_by_residues\<close> that returns has computed a
  transformation \<open>(M, t)\<close> from the backbone points of the two poses, and the store after
  it differs from the store before it in the source pose alone: every atom coordinate
  \<open>x\<close> of the source pose has become \<open>M x + t\<close>, every other pose, so the target pose when
  it is another object than the source, is as it was, and so is every residue list.
\<close>

theorem superimpose_changes_only_source:
  assumes "superimpose_poses_by_residues_in_store svd s pose_source residues_source pose_target residues_target = Inr s'"
  shows "\<exists>points_source points_target M t.
           get_backbone_points (poses s pose_source) (residue_lists s residues_source) = Inr points_source
         \<and> get_backbone_points (poses s pose_target) (residue_lists s residues_target) = Inr points_target
         \<and> get_superimpose_transformation svd points_source points_target = Inr (M, t)
         \<and> poses s' pose_source = apply_transform_Rx_plus_v M t (poses s pose_source)
         \<and> length (poses s' pose_source) = length (poses s pose_source)
         \<and> (\<forall>k<length (poses s pose_source).
               atom_N (poses s' pose_source ! k) = Rx_plus_v M t (atom_N (poses s pose_source ! k))
             \<and> atom_CA (poses s' pose_source ! k) = Rx_plus_v M t (atom_CA (poses s pose_source ! k))
             \<and> atom_C (poses s' pose_source ! k) = Rx_plus_v M t (atom_C (poses s pose_source ! k))
             \<and> other_atoms (poses s' pose_source ! k)
                 = map (Rx_plus_v M t) (other_atoms (poses s pose_source ! k)))
         \<and> (\<forall>p. p \<noteq> pose_source \<longrightarrow> poses s' p = poses s p)
         \<and> (pose_target \<noteq> pose_source \<longrightarrow> poses s' pose_target = poses s pose_target)
         \<and> residue_lists s' = residue_lists s"
  using assms
  by (auto simp: superimpose_poses_by_residues_in_store_def superimpose_poses_by_residues_def
        apply_transform_Rx_plus_v_def simp del: split_paired_Ex split: sum.splits if_splits prod.splits)


lemma example_backbone_moved:
  "get_backbone_points example_pose_moved [1] = Inr [(2, 2, 3), (1 / 2, 5 / 2, 3), (1 / 2, 3 / 2, 3)]"
  by (simp add: example_pose_moved_def residue_at_def)

lemma example_transformation_moved:
  "get_superimpose_transformation example_svd
     [(1, 0, 0), (- (1 / 2), 1 / 2, 0), (- (1 / 2), - (1 / 2), 0)]
     [(2, 2, 3), (1 / 2, 5 / 2, 3), (1 / 2, 3 / 2, 3)] = Inr (mat_id, (1, 2, 3))"
  by (simp add: get_superimpose_transformation_def mean_def vsum_def vzero_def
        cross_covariance_def mzero_def mat_id_def Let_def)

lemma example_apply_moved:
  "apply_transform_Rx_plus_v mat_id (1, 2, 3) example_pose = example_pose_moved"
  by (simp add: apply_transform_Rx_plus_v_def Rx_plus_v_def mat_id_def
        example_pose_def example_pose_moved_def example_residue_def example_residue2_def)

lemma example_superimpose_in_store:
  "superimpose_poses_by_residues_in_store example_svd example_store 0 0 1 0
     = Inr (example_store\<lparr> poses := (poses example_store)(0 := example_pose_moved) \<rparr>)"
  by (simp add: superimpose_poses_by_residues_in_store_def superimpose_poses_by_residues_def
        example_store_def example_backbone_1 example_backbone_moved example_transformation_moved
        example_apply_moved del: get_backbone_points.simps)

theorem superimpose_changes_only_source_witness:
  "superimpose_poses_by_residues_in_store example_svd example_store 0 0 1 0
     = Inr (example_store\<lparr> poses := (poses example_store)(0 := example_pose_moved) \<rparr>)
   \<and> poses (example_store\<lparr> poses := (poses example_store)(0 := example_pose_moved) \<rparr>) 1
       = poses example_store 1
   \<and> residue_lists (example_store\<lparr> poses := (poses example_store)(0 := example_pose_moved) \<rparr>)
       = residue_lists example_store"
  using superimpose_changes_only_source [OF example_superimpose_in_store] example_superimpose_in_store
  by simp

subsection \<open>The over-saturated acceptor scores\<close>

lemma over_saturated_scores_use_designable:
  "map_of (over_saturated_hbond_acceptor_scores f pose designable_residues repackable_residues)
      ''num_over_saturated_hbond_acceptors_for_designable_residues'' = Some (f pose designable_residues)
   \<and> map_of (over_saturated_hbond_acceptor_scores f pose designable_residues repackable_residues)
      ''num_over_saturated_hbond_acceptors_for_movable_residues'' = Some (f pose designable_residues)
   \<and> map_of (over_saturated_hbond_acceptor_scores f pose designable_residues repackable_residues)
      ''num_over_saturated_hbond_acceptors_for_all_residues'' = Some (f pose designable_residues)"
  by (simp add: over_saturated_hbond_acceptor_scores_def)


text \<open>
  Claim C6. The three over-saturated acceptor scores are all computed on the designable
  residues. With designable residues \<open>[2]\<close> and repackable residues \<open>[1]\<close> the score
  stored under the movable key is that of \<open>[2]\<close>, not that of the movable residues
  \<open>[2, 1]\<close>; with designable residues \<open>[1, 2]\<close> of a pose of two residues the score stored
  under the all-residues key is that of \<open>[1, 2]\<close>, not that of \<open>all_residues\<close> (which is
  \<open>[1]\<close>: \<open>range(1, pose.size())\<close> leaves the last residue out). The filter of the
  example counts the residues it is given.
\<close>

theorem over_saturated_scores_at_failing_input:
  "map_of (over_saturated_hbond_acceptor_scores example_acceptor_filter example_pose [2] [1])
      ''num_over_saturated_hbond_acceptors_for_movable_residues'' = Some 1
   \<and> example_acceptor_filter example_pose (movable_residues [2] [1]) = 2
   \<and> map_of (over_saturated_hbond_acceptor_scores example_acceptor_filter example_pose_moved [1, 2] [])
      ''num_over_saturated_hbond_acceptors_for_all_residues'' = Some 2
   \<and> all_residues example_pose_moved = [1]
   \<and> example_acceptor_filter example_pose_moved (all_residues example_pose_moved) = 1"
  by (simp add: over_saturated_hbond_acceptor_scores_def example_acceptor_filter_def
        movable_residues_def all_residues_def example_pose_moved_def upto.simps)

subsection \<open>Superposition of a rigid image\<close>

lemma vec3_cases: "(\<And>a b c. v = (a, b, c) \<Longrightarrow> P) \<Longrightarrow> P"
  by (cases v) auto

lemma mat3_cases:
  "(\<And>a b c d e f g h i. A = ((a, b, c), (d, e, f), (g, h, i)) \<Longrightarrow> P) \<Longrightarrow> P"
  by (cases A rule: prod_cases3; auto elim!: vec3_cases)

lemma mat_vec_vadd: "mat_vec A (vadd x y) = vadd (mat_vec A x) (mat_vec A y)"
  by (cases A rule: mat3_cases; cases x; cases y) (simp add: algebra_simps)

lemma mat_vec_vsub: "mat_vec A (vsub x y) = vsub (mat_vec A x) (mat_vec A y)"
  by (cases A rule: mat3_cases; cases x; cases y) (simp add: algebra_simps)

lemma mat_vec_vscale: "mat_vec A (vscale k x) = vscale k (mat_vec A x)"
  by (cases A rule: mat3_cases; cases x) (simp add: algebra_simps)

lemma mat_mul_assoc: "mat_mul (mat_mul A B) C = mat_mul A (mat_mul B C)"
  by (cases A rule: mat3_cases; cases B rule: mat3_cases; cases C rule: mat3_cases)
     (simp add: algebra_simps)

lemma mat_vec_mul: "mat_vec (mat_mul A B) x = mat_vec A (mat_vec B x)"
  by (cases A rule: mat3_cases; cases B rule: mat3_cases; cases x) (simp add: algebra_simps)

lemma transpose3_mul: "transpose3 (mat_mul A B) = mat_mul (transpose3 B) (transpose3 A)"
  by (cases A rule: mat3_cases; cases B rule: mat3_cases) (simp add: algebra_simps)

lemma transpose3_twice: "transpose3 (transpose3 A) = A"
  by (cases A rule: mat3_cases) simp

lemma mat_id_left: "mat_mul mat_id A = A"
  by (cases A rule: mat3_cases) (simp add: mat_id_def)

lemma mat_id_right: "mat_mul A mat_id = A"
  by (cases A rule: mat3_cases) (simp add: mat_id_def)

lemma mat_vec_id: "mat_vec mat_id x = x"
  by (cases x) (simp add: mat_id_def)

lemma det3_mul: "det3 (mat_mul A B) = det3 A * det3 B"
  by (cases A rule: mat3_cases; cases B rule: mat3_cases) (simp add: algebra_simps)

lemma det3_transpose: "det3 (transpose3 A) = det3 A"
  by (cases A rule: mat3_cases) (simp add: algebra_simps)

lemma det3_negate_last_column: "det3 (negate_last_column A) = - det3 A"
  by (cases A rule: mat3_cases) (simp add: algebra_simps)

lemma trace3_commute: "trace3 (mat_mul A B) = trace3 (mat_mul B A)"
  by (cases A rule: mat3_cases; cases B rule: mat3_cases) (simp add: algebra_simps)

lemma vdot_mat_vec: "vdot (mat_vec A x) y = vdot x (mat_vec (transpose3 A) y)"
  by (cases A rule: mat3_cases; cases x; cases y) (simp add: algebra_simps)


lemma vdot_commute: "vdot x y = vdot y x"
  by (cases x; cases y) (simp add: algebra_simps)

lemma orthogonal_transpose: "orthogonal A \<Longrightarrow> orthogonal (transpose3 A)"
  by (simp add: orthogonal_def transpose3_twice)

lemma orthogonal_mul: "orthogonal A \<Longrightarrow> orthogonal B \<Longrightarrow> orthogonal (mat_mul A B)"
proof -
  assume A: "orthogonal A" and B: "orthogonal B"
  have "mat_mul (mat_mul A B) (transpose3 (mat_mul A B))
      = mat_mul A (mat_mul (mat_mul B (transpose3 B)) (transpose3 A))"
    by (simp add: transpose3_mul mat_mul_assoc)
  also have "\<dots> = mat_id" using A B by (simp add: orthogonal_def mat_id_left)
  finally have 1: "mat_mul (mat_mul A B) (transpose3 (mat_mul A B)) = mat_id" .
  have "mat_mul (transpose3 (mat_mul A B)) (mat_mul A B)
      = mat_mul (transpose3 B) (mat_mul (mat_mul (transpose3 A) A) B)"
    by (simp add: transpose3_mul mat_mul_assoc)
  also have "\<dots> = mat_id" using A B by (simp add: orthogonal_def mat_id_left)
  finally have 2: "mat_mul (transpose3 (mat_mul A B)) (mat_mul A B) = mat_id" .
  from 1 2 show ?thesis by (simp add: orthogonal_def)
qed

lemma orthogonal_norm:
  assumes "orthogonal Q"
  shows "vdot (mat_vec Q x) (mat_vec Q x) = vdot x x"
proof -
  have "vdot (mat_vec Q x) (mat_vec Q x) = vdot x (mat_vec (mat_mul (transpose3 Q) Q) x)"
    by (simp add: vdot_mat_vec mat_vec_mul)
  with assms show ?thesis by (simp add: orthogonal_def mat_vec_id)
qed

lemma orthogonal_det: "orthogonal A \<Longrightarrow> det3 A = 1 \<or> det3 A = - 1"
proof -
  assume "orthogonal A"
  then have "det3 (mat_mul A (transpose3 A)) = det3 mat_id" by (simp add: orthogonal_def)
  then have "det3 A * det3 A = 1" by (simp add: det3_mul det3_transpose mat_id_def)
  then show ?thesis by (simp add: square_eq_1_iff)
qed

lemma square_le_1: "(x :: real) * x \<le> 1 \<Longrightarrow> x \<le> 1"
  using abs_square_le_1 [of x] by (simp add: power2_eq_square)

lemma orthogonal_diag_le_1:
  assumes "orthogonal G" and "G = ((a, b, c), (d, e, f), (g, h, i))"
  shows "a \<le> 1 \<and> e \<le> 1 \<and> i \<le> 1"
proof -
  from assms have "a * a + b * b + c * c = 1" "d * d + e * e + f * f = 1" "g * g + h * h + i * i = 1"
    by (simp_all add: orthogonal_def mat_id_def)
  then have "a * a \<le> 1" "e * e \<le> 1" "i * i \<le> 1"
    using zero_le_square [of b] zero_le_square [of c] zero_le_square [of d] zero_le_square [of f]
      zero_le_square [of g] zero_le_square [of h]
    by linarith+
  then show ?thesis using square_le_1 by blast
qed

lemma madd_mul: "mat_mul (madd A B) C = madd (mat_mul A C) (mat_mul B C)"
  by (cases A rule: mat3_cases; cases B rule: mat3_cases; cases C rule: mat3_cases)
     (simp add: algebra_simps)

lemma mzero_mul: "mat_mul mzero C = mzero"
  by (cases C rule: mat3_cases) (simp add: mzero_def vzero_def)

lemma outer_mat_vec: "outer x (mat_vec R y) = mat_mul (outer x y) (transpose3 R)"
  by (cases R rule: mat3_cases; cases x; cases y) (simp add: algebra_simps)

lemma cross_covariance_rotated:
  "cross_covariance X (map (mat_vec R) X) = mat_mul (cross_covariance X X) (transpose3 R)"
proof (induction X)
  case Nil
  show ?case by (simp add: cross_covariance_def mzero_mul)
next
  case (Cons a X)
  have "cross_covariance (a # X) (map (mat_vec R) (a # X)) = madd (outer a (mat_vec R a)) (cross_covariance X (map (mat_vec R) X))"
    by (simp add: cross_covariance_def)
  also have "\<dots> = madd (mat_mul (outer a a) (transpose3 R)) (mat_mul (cross_covariance X X) (transpose3 R))"
    by (simp only: Cons.IH outer_mat_vec)
  also have "\<dots> = mat_mul (madd (outer a a) (cross_covariance X X)) (transpose3 R)"
    by (simp only: madd_mul)
  also have "madd (outer a a) (cross_covariance X X) = cross_covariance (a # X) (a # X)"
    by (simp add: cross_covariance_def)
  finally show ?case .
qed

lemma trace3_madd: "trace3 (madd A B) = trace3 A + trace3 B"
  by (cases A rule: mat3_cases; cases B rule: mat3_cases) simp

lemma trace3_outer_mul: "trace3 (mat_mul (outer x y) A) = vdot x (mat_vec (transpose3 A) y)"
  by (cases A rule: mat3_cases; cases x; cases y) (simp add: algebra_simps)

lemma trace3_mzero: "trace3 mzero = 0"
  by (simp add: mzero_def vzero_def)

lemma transpose3_id: "transpose3 mat_id = mat_id"
  by (simp add: mat_id_def)

lemma trace3_gram_mul:
  "trace3 (mat_mul (cross_covariance X X) A) = sum_list (map (\<lambda>x. vdot x (mat_vec (transpose3 A) x)) X)"
proof (induction X)
  case Nil
  show ?case by (simp add: cross_covariance_def mzero_mul trace3_mzero)
next
  case (Cons a X)
  have "cross_covariance (a # X) (a # X) = madd (outer a a) (cross_covariance X X)"
    by (simp add: cross_covariance_def)
  then have "trace3 (mat_mul (cross_covariance (a # X) (a # X)) A)
      = trace3 (mat_mul (outer a a) A) + trace3 (mat_mul (cross_covariance X X) A)"
    by (simp only: madd_mul trace3_madd)
  also have "\<dots> = vdot a (mat_vec (transpose3 A) a)
      + sum_list (map (\<lambda>x. vdot x (mat_vec (transpose3 A) x)) X)"
    by (simp only: Cons.IH trace3_outer_mul)
  finally show ?case by simp
qed

lemma trace3_gram: "trace3 (cross_covariance X X) = sum_list (map (\<lambda>x. vdot x x) X)"
  using trace3_gram_mul [of X mat_id] by (simp add: mat_id_right mat_vec_id transpose3_id)

lemma vdot_orthogonal_le:
  assumes "orthogonal Q"
  shows "vdot x (mat_vec Q x) \<le> vdot x x"
proof -
  have "0 \<le> vdot (vsub x (mat_vec Q x)) (vsub x (mat_vec Q x))"
    by (cases "vsub x (mat_vec Q x)") simp
  also have "\<dots> = vdot x x - 2 * vdot x (mat_vec Q x) + vdot (mat_vec Q x) (mat_vec Q x)"
    by (cases x; cases "mat_vec Q x") (simp add: algebra_simps)
  also have "\<dots> = 2 * vdot x x - 2 * vdot x (mat_vec Q x)"
    using orthogonal_norm [OF assms, of x] by simp
  finally show ?thesis by simp
qed

lemma trace3_gram_orthogonal_le:
  assumes "orthogonal Q"
  shows "trace3 (mat_mul (cross_covariance X X) (transpose3 Q)) \<le> trace3 (cross_covariance X X)"
  unfolding trace3_gram_mul trace3_gram transpose3_twice
  by (intro sum_list_mono) (simp add: vdot_orthogonal_le [OF assms])


lemma orthogonal_cancel_left: "orthogonal A \<Longrightarrow> mat_mul A (mat_mul (transpose3 A) B) = B"
  using mat_mul_assoc [of A "transpose3 A" B] by (simp add: orthogonal_def mat_id_left)

lemma orthogonal_cancel_left': "orthogonal A \<Longrightarrow> mat_mul (transpose3 A) (mat_mul A B) = B"
  using mat_mul_assoc [of "transpose3 A" A B] by (simp add: orthogonal_def mat_id_left)

lemma orthogonal_self: "orthogonal A \<Longrightarrow> mat_mul A (transpose3 A) = mat_id"
  "orthogonal A \<Longrightarrow> mat_mul (transpose3 A) A = mat_id"
  by (simp_all add: orthogonal_def)

lemma trace3_diag_mul:
  "trace3 (mat_mul (diag3 (s1, s2, s3)) ((a, b, c), (d, e, f), (g, h, i))) = s1 * a + s2 * e + s3 * i"
  by simp

lemma negate_last_column_mul:
  "negate_last_column V = mat_mul V ((1, 0, 0), (0, 1, 0), (0, 0, - 1))"
  by (cases V rule: mat3_cases) simp

lemma sum_squares_zero:
  "(x :: real) * x + y * y + z * z = 1 \<Longrightarrow> x = 1 \<Longrightarrow> y = 0 \<and> z = 0"
  "(x :: real) * x + y * y + z * z = 1 \<Longrightarrow> y = 1 \<Longrightarrow> x = 0 \<and> z = 0"
  using sum_squares_eq_zero_iff [of y z] sum_squares_eq_zero_iff [of x z]
  by (simp_all add: power2_eq_square)

lemma orthogonal_two_ones:
  assumes "orthogonal ((a, b, c), (d, e, f), (g, h, i))" and "a = 1" and "e = 1"
  shows "b = 0 \<and> c = 0 \<and> d = 0 \<and> f = 0 \<and> g = 0 \<and> h = 0 \<and> i * i = 1"
proof -
  from assms(1) have rows: "a * a + b * b + c * c = 1" "d * d + e * e + f * f = 1"
      "g * g + h * h + i * i = 1"
    and cols: "a * a + d * d + g * g = 1" "b * b + e * e + h * h = 1"
    by (simp_all add: orthogonal_def mat_id_def)
  from rows(1) assms(2) have "b = 0 \<and> c = 0" by (rule sum_squares_zero(1))
  moreover from rows(2) assms(3) have "d = 0 \<and> f = 0" by (rule sum_squares_zero(2))
  moreover from cols(1) assms(2) have "d = 0 \<and> g = 0" by (rule sum_squares_zero(1))
  moreover from cols(2) assms(3) have "b = 0 \<and> h = 0" by (rule sum_squares_zero(2))
  ultimately show ?thesis using rows(3) by simp
qed


lemma kabsch_core:
  assumes R: "proper_rotation R"
    and svd: "is_svd (mat_mul (cross_covariance X X) (transpose3 R)) (V, (s1, s2, s3), W)"
    and pos: "s2 > 0"
  shows "transpose3 (mat_mul (if det3 V * det3 W < 0 then negate_last_column V else V) W) = R"
proof -
  let ?S = "diag3 (s1, s2, s3)"
  let ?C = "cross_covariance X X"
  from svd have oV: "orthogonal V" and oW: "orthogonal W"
    and s: "s1 \<ge> s2" "s2 \<ge> s3" "s3 \<ge> 0"
    and H: "mat_mul (mat_mul V ?S) W = mat_mul ?C (transpose3 R)"
    by simp_all
  from R have oR: "orthogonal R" and dR: "det3 R = 1" by (simp_all add: proper_rotation_def)
  define G where "G = mat_mul W (mat_mul R V)"
  define Q where "Q = mat_mul V (mat_mul W R)"
  have oG: "orthogonal G" unfolding G_def by (intro orthogonal_mul oV oW oR)
  have oQ: "orthogonal Q" unfolding Q_def by (intro orthogonal_mul oV oW oR)
  have C_eq: "?C = mat_mul V (mat_mul ?S (mat_mul W R))"
  proof -
    have "mat_mul (mat_mul (mat_mul V ?S) W) R = mat_mul (mat_mul ?C (transpose3 R)) R"
      by (simp only: H)
    then show ?thesis
      by (simp add: mat_mul_assoc orthogonal_self [OF oR] mat_id_right del: diag3.simps mat_mul.simps)
  qed
  have tr1: "trace3 ?C = trace3 (mat_mul ?S G)"
  proof -
    have "trace3 ?C = trace3 (mat_mul V (mat_mul ?S (mat_mul W R)))" using C_eq by simp
    also have "\<dots> = trace3 (mat_mul (mat_mul ?S (mat_mul W R)) V)" by (rule trace3_commute)
    also have "\<dots> = trace3 (mat_mul ?S G)" by (simp only: G_def mat_mul_assoc)
    finally show ?thesis .
  qed
  have S_eq: "?S = mat_mul (transpose3 V) (mat_mul (mat_mul ?C (transpose3 R)) (transpose3 W))"
  proof -
    have "mat_mul (transpose3 V) (mat_mul (mat_mul (mat_mul V ?S) W) (transpose3 W)) = ?S"
      by (simp add: mat_mul_assoc orthogonal_self [OF oW] orthogonal_cancel_left' [OF oV] mat_id_right
            del: diag3.simps mat_mul.simps)
    then show ?thesis by (simp only: H)
  qed
  have tr2: "trace3 ?S = trace3 (mat_mul ?C (transpose3 Q))"
  proof -
    have "trace3 ?S = trace3 (mat_mul (transpose3 V) (mat_mul (mat_mul ?C (transpose3 R)) (transpose3 W)))"
      using S_eq by simp
    also have "\<dots> = trace3 (mat_mul (mat_mul (mat_mul ?C (transpose3 R)) (transpose3 W)) (transpose3 V))"
      by (rule trace3_commute)
    also have "\<dots> = trace3 (mat_mul ?C (transpose3 Q))"
      by (simp only: Q_def mat_mul_assoc transpose3_mul)
    finally show ?thesis .
  qed
  have le: "s1 + s2 + s3 \<le> trace3 (mat_mul ?S G)"
  proof -
    have "trace3 ?S \<le> trace3 ?C" unfolding tr2 by (rule trace3_gram_orthogonal_le [OF oQ])
    then show ?thesis using tr1 by simp
  qed
  obtain a b c d e f g h i where Gc: "G = ((a, b, c), (d, e, f), (g, h, i))"
    by (rule mat3_cases)
  from orthogonal_diag_le_1 [OF oG Gc] have d1: "a \<le> 1" "e \<le> 1" "i \<le> 1" by simp_all
  from le have le': "s1 + s2 + s3 \<le> s1 * a + s2 * e + s3 * i"
    unfolding Gc trace3_diag_mul .
  have s1: "s1 > 0" using pos s by simp
  have nn: "0 \<le> s1 * (1 - a)" "0 \<le> s2 * (1 - e)" "0 \<le> s3 * (1 - i)"
    using d1 s s1 pos by (simp_all add: mult_nonneg_nonneg)
  have "s1 * (1 - a) + s2 * (1 - e) + s3 * (1 - i) \<le> 0" using le' by (simp add: algebra_simps)
  with nn have "s1 * (1 - a) = 0" "s2 * (1 - e) = 0" by linarith+
  with s1 pos have ae: "a = 1" "e = 1" by simp_all
  from orthogonal_two_ones [OF oG [unfolded Gc] ae]
  have z: "b = 0" "c = 0" "d = 0" "f = 0" "g = 0" "h = 0" and ii: "i * i = 1" by simp_all
  have detG: "det3 G = det3 V * det3 W"
    unfolding G_def by (simp add: det3_mul dR del: mat_mul.simps det3.simps)
  have detG': "det3 G = i" unfolding Gc using ae z by simp
  have WR: "mat_mul W R = mat_mul G (transpose3 V)"
    unfolding G_def by (simp add: mat_mul_assoc orthogonal_self [OF oV] mat_id_right del: mat_mul.simps)
  have W_eq: "W = mat_mul G (mat_mul (transpose3 V) (transpose3 R))"
  proof -
    have "mat_mul (mat_mul W R) (transpose3 R) = W"
      by (simp add: mat_mul_assoc orthogonal_self [OF oR] mat_id_right del: mat_mul.simps)
    then show ?thesis unfolding WR by (simp only: mat_mul_assoc)
  qed
  show ?thesis
  proof (cases "det3 V * det3 W < 0")
    case True
    with detG detG' ii have "i = - 1" by (simp add: square_eq_1_iff)
    with Gc ae z have GD: "G = ((1, 0, 0), (0, 1, 0), (0, 0, - 1))" by simp
    have DD: "mat_mul ((1, 0, 0), (0, 1, 0), (0, 0, - 1)) (mat_mul ((1, 0, 0), (0, 1, 0), (0, 0, - 1)) B) = B" for B :: mat3
      by (cases B rule: mat3_cases) simp
    have "mat_mul (negate_last_column V) W = transpose3 R"
      apply (subst W_eq)
      apply (simp only: negate_last_column_mul GD mat_mul_assoc DD orthogonal_cancel_left [OF oV])
      done
    with True show ?thesis by (simp add: transpose3_twice del: mat_mul.simps)
  next
    case False
    with detG detG' ii have "i = 1" by (auto simp: square_eq_1_iff)
    with Gc ae z have GI: "G = mat_id" by (simp add: mat_id_def)
    have "mat_mul V W = transpose3 R"
      apply (subst W_eq)
      apply (simp only: GI mat_id_left orthogonal_cancel_left [OF oV])
      done
    with False show ?thesis by (simp add: transpose3_twice del: mat_mul.simps)
  qed
qed


lemma gram_quadratic_form:
  "vdot z (mat_vec (cross_covariance X X) z) = sum_list (map (\<lambda>x. vdot x z * vdot x z) X)"
proof (induction X)
  case Nil
  show ?case by (cases z) (simp add: cross_covariance_def mzero_def vzero_def)
next
  case (Cons a X)
  have "vdot z (mat_vec (madd (outer a a) B) z) = vdot a z * vdot a z + vdot z (mat_vec B z)" for B
    by (cases B rule: mat3_cases; cases a; cases z) (simp add: algebra_simps)
  moreover have "cross_covariance (a # X) (a # X) = madd (outer a a) (cross_covariance X X)"
    by (simp add: cross_covariance_def)
  ultimately show ?case using Cons.IH by simp
qed

lemma gram_kernel_orthogonal:
  assumes "mat_vec (cross_covariance X X) z = vzero" and "a \<in> set X"
  shows "vdot a z = 0"
proof -
  have "sum_list (map (\<lambda>x. vdot x z * vdot x z) X) = 0"
    using gram_quadratic_form [of z X] assms(1) by (cases z) (simp add: vzero_def)
  moreover have "\<forall>y\<in>set (map (\<lambda>x. vdot x z * vdot x z) X). 0 \<le> y" by auto
  ultimately have "\<forall>y\<in>set (map (\<lambda>x. vdot x z * vdot x z) X). y = 0"
    using sum_list_nonneg_eq_0_iff by blast
  with assms(2) show ?thesis by auto
qed

lemma vdot_self_zero: "vdot z z = 0 \<Longrightarrow> z = vzero"
proof (cases z)
  case (fields a b c)
  assume "vdot z z = 0"
  then have "a * a + b * b + c * c = 0" using fields by simp
  then have "a * a = 0" "b * b = 0" "c * c = 0"
    using zero_le_square [of a] zero_le_square [of b] zero_le_square [of c] by linarith+
  with fields show ?thesis by (simp add: vzero_def)
qed

lemma vdot_vsub_right: "vdot w (vsub a b) = vdot w a - vdot w b"
  by (cases w; cases a; cases b) (simp add: algebra_simps)

lemma vdot_vsub_left: "vdot (vsub a b) z = vdot a z - vdot b z"
  by (cases z; cases a; cases b) (simp add: algebra_simps)

lemma vdot_vscale_right: "vdot w (vscale k v) = k * vdot w v"
  by (cases w; cases v) (simp add: algebra_simps)

lemma vdot_vscale_left: "vdot (vscale k v) z = k * vdot v z"
  by (cases z; cases v) (simp add: algebra_simps)

lemma rank_one_parallel:
  assumes oA: "orthogonal A" and A: "A = (w, r2, r3)"
    and C: "cross_covariance X X = mat_mul V (mat_mul (diag3 (s1, 0, 0)) A)"
    and a: "a \<in> set X"
  shows "a = vscale (vdot a w) w"
proof -
  from oA A have ww: "vdot w w = 1"
    by (cases w; cases r2; cases r3) (simp add: orthogonal_def mat_id_def)
  define z where "z = vsub a (vscale (vdot a w) w)"
  have wz: "vdot w z = 0"
    unfolding z_def by (simp add: vdot_vsub_right vdot_vscale_right ww vdot_commute [of w a])
  have "mat_vec (mat_mul (diag3 (s1, 0, 0)) (w, r2, r3)) z = (s1 * vdot w z, 0, 0)"
    by (cases w; cases r2; cases r3; cases z) (simp add: algebra_simps)
  then have "mat_vec (mat_mul (diag3 (s1, 0, 0)) A) z = vzero"
    using wz unfolding A by (simp add: vzero_def del: mat_mul.simps diag3.simps)
  then have "mat_vec (cross_covariance X X) z = vzero"
    unfolding C mat_vec_mul [of V] by (cases V rule: mat3_cases) (simp add: vzero_def)
  from gram_kernel_orthogonal [OF this a] have az: "vdot a z = 0" .
  have "vdot z z = vdot a z - vdot a w * vdot w z"
    by (subst z_def) (simp only: vdot_vsub_left vdot_vscale_left)
  with az wz have "vdot z z = 0" by simp
  then have "z = vzero" by (rule vdot_self_zero)
  then show ?thesis unfolding z_def by (cases a; cases "vscale (vdot a w) w") (simp add: vzero_def)
qed

lemma cross_parallel: "cross (vscale k w) (vscale l w) = vzero"
  by (cases w) (simp add: vzero_def algebra_simps)

lemma second_singular_value_positive:
  assumes oR: "orthogonal R"
    and svd: "is_svd (mat_mul (cross_covariance X X) (transpose3 R)) (V, (s1, s2, s3), W)"
    and a: "a \<in> set X" and b: "b \<in> set X" and ab: "cross a b \<noteq> vzero"
  shows "s2 > 0"
proof (rule ccontr)
  assume "\<not> s2 > 0"
  with svd have s: "s2 = 0" "s3 = 0" by simp_all
  from svd have oW: "orthogonal W"
    and H: "mat_mul (mat_mul V (diag3 (s1, s2, s3))) W = mat_mul (cross_covariance X X) (transpose3 R)"
    by simp_all
  have "mat_mul (mat_mul (mat_mul V (diag3 (s1, s2, s3))) W) R
      = mat_mul (mat_mul (cross_covariance X X) (transpose3 R)) R"
    by (simp only: H)
  then have C: "cross_covariance X X = mat_mul V (mat_mul (diag3 (s1, 0, 0)) (mat_mul W R))"
    unfolding s
    by (simp add: mat_mul_assoc orthogonal_self [OF oR] mat_id_right del: diag3.simps mat_mul.simps)
  have oA: "orthogonal (mat_mul W R)" by (intro orthogonal_mul oW oR)
  obtain w r2 r3 where A: "mat_mul W R = (w, r2, r3)" by (rule prod_cases3)
  from rank_one_parallel [OF oA A C a] rank_one_parallel [OF oA A C b]
  have "a = vscale (vdot a w) w" "b = vscale (vdot b w) w" .
  then have "cross a b = vzero" using cross_parallel by metis
  with ab show False by simp
qed


lemma vsum_Cons: "vsum (p # P) = vadd p (vsum P)"
  by (simp add: vsum_def)

lemma vsum_Rx_plus_v:
  "vsum (map (Rx_plus_v R t) P) = vadd (mat_vec R (vsum P)) (vscale (real (length P)) t)"
proof (induction P)
  case Nil
  show ?case by (cases R rule: mat3_cases; cases t) (simp add: vsum_def vzero_def)
next
  case (Cons p P)
  have "vadd (vadd (mat_vec R p) t) (vadd (mat_vec R s) (vscale n t))
      = vadd (mat_vec R (vadd p s)) (vscale (1 + n) t)" for s n
    unfolding mat_vec_vadd by (cases "mat_vec R p"; cases "mat_vec R s"; cases t) (simp add: algebra_simps)
  with Cons.IH show ?case by (simp add: vsum_Cons Rx_plus_v_def del: vadd.simps)
qed

lemma mean_Rx_plus_v:
  assumes "P \<noteq> []"
  shows "mean (map (Rx_plus_v R t) P) = Rx_plus_v R t (mean P)"
proof -
  have n: "real (length P) \<noteq> 0" using assms by simp
  have "vscale (1 / n) (vadd (mat_vec R s) (vscale n t)) = vadd (mat_vec R (vscale (1 / n) s)) t"
    if "n \<noteq> 0" for n s
    unfolding mat_vec_vscale using that
    by (cases "mat_vec R s"; cases t) (simp add: field_simps)
  from this [OF n] show ?thesis by (simp add: mean_def vsum_Rx_plus_v Rx_plus_v_def)
qed

lemma Rx_plus_v_vsub: "vsub (Rx_plus_v R t p) (Rx_plus_v R t q) = mat_vec R (vsub p q)"
  unfolding Rx_plus_v_def mat_vec_vsub
  by (cases "mat_vec R p"; cases "mat_vec R q"; cases t) simp

lemma centred_Rx_plus_v:
  assumes "P \<noteq> []"
  shows "centred (map (Rx_plus_v R t) P) = map (mat_vec R) (centred P)"
  by (simp add: centred_def mean_Rx_plus_v [OF assms] Rx_plus_v_vsub)

lemma superimpose_covariance_rigid:
  assumes "P \<noteq> []"
  shows "superimpose_covariance P (map (Rx_plus_v R t) P)
       = mat_mul (cross_covariance (centred P) (centred P)) (transpose3 R)"
  by (simp add: superimpose_covariance_def centred_Rx_plus_v [OF assms] cross_covariance_rotated)

lemma get_superimpose_transformation_eq:
  assumes "length P1 = length P2" and "P1 \<noteq> []"
    and "svd (superimpose_covariance P1 P2) = (V, S, W)"
  shows "get_superimpose_transformation svd P1 P2 =
     Inr (transpose3 (mat_mul (if det3 V * det3 W < 0 then negate_last_column V else V) W),
          vsub (mean P2)
            (mat_vec (transpose3 (mat_mul (if det3 V * det3 W < 0 then negate_last_column V else V) W))
               (mean P1)))"
  using assms
  by (simp add: get_superimpose_transformation_def superimpose_covariance_def centred_def Let_def
        del: mat_mul.simps)

lemma Rx_plus_v_translation: "vsub (Rx_plus_v R t m) (mat_vec R m) = t"
  unfolding Rx_plus_v_def by (cases "mat_vec R m"; cases t) simp

text \<open>
  Claim C1, amended. For every list of points \<open>P\<close> that is not collinear, every proper
  rotation \<open>R\<close> and every translation \<open>t\<close>, \<open>get_superimpose_transformation\<close> of \<open>P\<close> and
  of its image under \<open>x \<mapsto> R x + t\<close> returns the pair \<open>(R, t)\<close>, when \<open>svd\<close> returns a
  singular value decomposition of the cross-covariance it is given. The arithmetic is
  that of the reals. The claim as stated, for every \<open>P\<close> of at least one point, fails:
  the counterexample follows.
\<close>

theorem superposition_recovers_rigid_transform:
  assumes R: "proper_rotation R"
    and P: "\<not> collinear P"
    and svd: "is_svd (superimpose_covariance P (map (Rx_plus_v R t) P))
                (svd (superimpose_covariance P (map (Rx_plus_v R t) P)))"
  shows "get_superimpose_transformation svd P (map (Rx_plus_v R t) P) = Inr (R, t)"
proof -
  from P obtain a b where ab: "a \<in> set (centred P)" "b \<in> set (centred P)" "cross a b \<noteq> vzero"
    by (auto simp: collinear_def list_all_iff)
  then have ne: "P \<noteq> []" by (auto simp: centred_def)
  obtain V s1 s2 s3 W where f: "svd (superimpose_covariance P (map (Rx_plus_v R t) P)) = (V, (s1, s2, s3), W)"
    by (metis prod_cases3)
  with svd have dec: "is_svd (mat_mul (cross_covariance (centred P) (centred P)) (transpose3 R)) (V, (s1, s2, s3), W)"
    by (simp only: superimpose_covariance_rigid [OF ne])
  from R have oR: "orthogonal R" by (simp add: proper_rotation_def)
  from second_singular_value_positive [OF oR dec ab] have "s2 > 0" .
  from kabsch_core [OF R dec this]
  have M: "transpose3 (mat_mul (if det3 V * det3 W < 0 then negate_last_column V else V) W) = R" .
  have "length P = length (map (Rx_plus_v R t) P)" by simp
  from get_superimpose_transformation_eq
         [where svd = svd and ?P1.0 = P and ?P2.0 = "map (Rx_plus_v R t) P", OF this ne f]
  show ?thesis unfolding M by (simp add: mean_Rx_plus_v [OF ne] Rx_plus_v_translation)
qed


lemma example_rotation_proper: "proper_rotation example_rotation"
  by (simp add: proper_rotation_def orthogonal_def example_rotation_def mat_id_def)

lemma example_points_mean: "mean example_points = vzero"
  by (simp add: mean_def vsum_def example_points_def vzero_def)

lemma example_points_not_collinear: "\<not> collinear example_points"
  by (simp add: collinear_def centred_def example_points_mean) (simp add: example_points_def vzero_def)

lemma example_points_moved:
  "map (Rx_plus_v example_rotation example_translation) example_points
     = [(1, 3, 3), (1 / 2, 3 / 2, 3), (3 / 2, 3 / 2, 3)]"
  by (simp add: example_points_def Rx_plus_v_def example_rotation_def example_translation_def)

lemma example_covariance_rotated:
  "superimpose_covariance example_points (map (Rx_plus_v example_rotation example_translation) example_points)
     = ((0, 3 / 2, 0), (- (1 / 2), 0, 0), (0, 0, 0))"
  unfolding example_points_moved
  by (simp add: superimpose_covariance_def centred_def example_points_mean)
     (simp add: example_points_def mean_def vsum_def vzero_def cross_covariance_def mzero_def)

lemma example_svd_rotated_is_svd:
  "is_svd (superimpose_covariance example_points
             (map (Rx_plus_v example_rotation example_translation) example_points))
          (example_svd_rotated (superimpose_covariance example_points
             (map (Rx_plus_v example_rotation example_translation) example_points)))"
  unfolding example_covariance_rotated
  by (simp add: example_svd_rotated_def orthogonal_def mat_id_def example_rotation_def)

theorem superposition_recovers_rigid_transform_witness:
  "proper_rotation example_rotation \<and> \<not> collinear example_points
   \<and> is_svd (superimpose_covariance example_points
             (map (Rx_plus_v example_rotation example_translation) example_points))
          (example_svd_rotated (superimpose_covariance example_points
             (map (Rx_plus_v example_rotation example_translation) example_points)))
   \<and> get_superimpose_transformation example_svd_rotated example_points
         (map (Rx_plus_v example_rotation example_translation) example_points)
       = Inr (example_rotation, example_translation)"
  using superposition_recovers_rigid_transform [where svd = example_svd_rotated and R = example_rotation and P = example_points
              and t = example_translation,
            OF example_rotation_proper example_points_not_collinear example_svd_rotated_is_svd]
    example_rotation_proper example_points_not_collinear example_svd_rotated_is_svd
  by blast

lemma example_half_turn_proper: "proper_rotation example_half_turn"
  by (simp add: proper_rotation_def orthogonal_def example_half_turn_def mat_id_def)

text \<open>
  One point does not determine the rotation. The point \<open>(1, 2, 3)\<close> and its image under
  the half turn about the third axis have the zero matrix as their cross-covariance; with
  identity factors for it (a singular value decomposition of the zero matrix) the function
  returns the identity and the translation \<open>(- 2, - 4, 0)\<close>, not the half turn and the zero
  translation.
\<close>

theorem superposition_single_point_counterexample:
  "proper_rotation example_half_turn
   \<and> map (Rx_plus_v example_half_turn vzero) [(1, 2, 3)] = [(- 1, - 2, 3)]
   \<and> is_svd (superimpose_covariance [(1, 2, 3)] [(- 1, - 2, 3)])
        (example_svd (superimpose_covariance [(1, 2, 3)] [(- 1, - 2, 3)]))
   \<and> get_superimpose_transformation example_svd [(1, 2, 3)]
        (map (Rx_plus_v example_half_turn vzero) [(1, 2, 3)]) = Inr (mat_id, (- 2, - 4, 0))
   \<and> get_superimpose_transformation example_svd [(1, 2, 3)]
        (map (Rx_plus_v example_half_turn vzero) [(1, 2, 3)]) \<noteq> Inr (example_half_turn, vzero)"
proof -
  have m: "map (Rx_plus_v example_half_turn vzero) [(1, 2, 3)] = [(- 1, - 2, 3)]"
    by (simp add: Rx_plus_v_def example_half_turn_def vzero_def)
  have c: "superimpose_covariance [(1, 2, 3)] [(- 1, - 2, 3)] = mzero"
    by (simp add: superimpose_covariance_def centred_def mean_def vsum_def vzero_def
          cross_covariance_def mzero_def)
  have i: "is_svd mzero (example_svd mzero)"
    by (simp add: mzero_def vzero_def orthogonal_def mat_id_def)
  have g: "get_superimpose_transformation example_svd [(1, 2, 3)] [(- 1, - 2, 3)]
             = Inr (mat_id, (- 2, - 4, 0))"
    by (simp add: get_superimpose_transformation_def mean_def vsum_def vzero_def
          cross_covariance_def mzero_def mat_id_def Let_def)
  have "mat_id \<noteq> example_half_turn" by (simp add: mat_id_def example_half_turn_def)
  with example_half_turn_proper m c i g show ?thesis by simp
qed

text \<open>
  Whatever \<open>svd\<close> returns: the origin has the same image under the identity and under the
  half turn, so the two calls are the same call and cannot return both rotations.
\<close>

lemma single_point_rotation_not_determined:
  "\<not> (get_superimpose_transformation svd [vzero] (map (Rx_plus_v mat_id vzero) [vzero]) = Inr (mat_id, vzero)
      \<and> get_superimpose_transformation svd [vzero] (map (Rx_plus_v example_half_turn vzero) [vzero])
          = Inr (example_half_turn, vzero))"
proof -
  have "map (Rx_plus_v mat_id vzero) [vzero] = map (Rx_plus_v example_half_turn vzero) [vzero]"
    by (simp add: Rx_plus_v_def mat_id_def example_half_turn_def vzero_def)
  moreover have "mat_id \<noteq> example_half_turn" by (simp add: mat_id_def example_half_turn_def)
  ultimately show ?thesis by auto
qed

end
